theory Spec2Isabelle
  imports Main
begin

section \<open>Text primitives of the Python runtime\<close>

text \<open>
  A Python \<^verbatim>\<open>str\<close> is modelled as a \<^typ>\<open>string\<close> whose characters are the code points
  below 256 (ASCII and Latin-1); the no-break space \<^verbatim>\<open>\u00A0\<close> is the character with code 160.  Text with
  code points beyond that range is outside the model.
\<close>

text \<open>The code point of a character.\<close>

definition code :: "char \<Rightarrow> nat" where
  "code c = of_char c"

text \<open>The characters \<^verbatim>\<open>str.strip()\<close> removes and the regex class \<^verbatim>\<open>\s\<close> matches.\<close>

definition is_space :: "char \<Rightarrow> bool" where
  "is_space c = (let n = code c in
     (9 \<le> n \<and> n \<le> 13) \<or> (28 \<le> n \<and> n \<le> 32) \<or> n = 133 \<or> n = 160)"

text \<open>The regex class \<^verbatim>\<open>\d\<close>: below code point 256 only the ASCII digits are decimal digits.\<close>

definition is_digit :: "char \<Rightarrow> bool" where
  "is_digit c = (let n = code c in 48 \<le> n \<and> n \<le> 57)"

definition py_strip :: "string \<Rightarrow> string" where
  "py_strip s = rev (dropWhile is_space (rev (dropWhile is_space s)))"

text \<open>
  \<^verbatim>\<open>str.upper()\<close> and \<^verbatim>\<open>str.lower()\<close>, character by character.  Three Latin-1 characters have
  an upper-case form that is not a single Latin-1 character (the codes 181, 223 and 255: micro sign, sharp s, y with diaeresis);
  they are left unchanged here.  The program only compares upper-cased text with ASCII
  constants none of which contains \<^verbatim>\<open>SS\<close>, so no comparison can tell the difference.
\<close>

definition upper_char :: "char \<Rightarrow> char" where
  "upper_char c = (let n = code c in
     if (97 \<le> n \<and> n \<le> 122) \<or> (224 \<le> n \<and> n \<le> 254 \<and> n \<noteq> 247)
     then char_of (n - 32) else c)"

definition lower_char :: "char \<Rightarrow> char" where
  "lower_char c = (let n = code c in
     if (65 \<le> n \<and> n \<le> 90) \<or> (192 \<le> n \<and> n \<le> 222 \<and> n \<noteq> 215)
     then char_of (n + 32) else c)"

definition py_upper :: "string \<Rightarrow> string" where
  "py_upper s = map upper_char s"

definition py_lower :: "string \<Rightarrow> string" where
  "py_lower s = map lower_char s"

text \<open>\<^verbatim>\<open>s.endswith("%")\<close>.\<close>

definition ends_with_percent :: "string \<Rightarrow> bool" where
  "ends_with_percent s = (s \<noteq> [] \<and> last s = CHR ''%'')"

text \<open>\<^verbatim>\<open>s.replace(a, "")\<close> and \<^verbatim>\<open>s.replace(a, b)\<close> for single characters.\<close>

definition remove_char :: "char \<Rightarrow> string \<Rightarrow> string" where
  "remove_char a s = filter (\<lambda>c. c \<noteq> a) s"

definition replace_char :: "char \<Rightarrow> char \<Rightarrow> string \<Rightarrow> string" where
  "replace_char a b s = map (\<lambda>c. if c = a then b else c) s"

section \<open>The grammar of \<^verbatim>\<open>float(str)\<close>\<close>

text \<open>
  Which strings the built-in \<^verbatim>\<open>float\<close> accepts is modelled from the language reference:
  optional surrounding whitespace, an optional sign, then \<^verbatim>\<open>inf\<close>, \<^verbatim>\<open>infinity\<close> or \<^verbatim>\<open>nan\<close> in
  any case, or a decimal number with an optional exponent, where single underscores may
  separate digits.  Which floating-point value an accepted string denotes is not modelled:
  it is a function of the runtime (see \<open>pyrt\<close> below).
\<close>

fun digits_tail :: "string \<Rightarrow> string" where
  "digits_tail [] = []"
| "digits_tail (c # cs) =
     (if is_digit c then digits_tail cs
      else if c = CHR ''_'' then
        (case cs of
           [] \<Rightarrow> c # cs
         | d # ds \<Rightarrow> if is_digit d then digits_tail ds else c # cs)
      else c # cs)"

text \<open>\<open>digitpart s\<close> is what follows the longest digit part at the start of \<open>s\<close>.\<close>

definition digitpart :: "string \<Rightarrow> string option" where
  "digitpart s = (case s of
       [] \<Rightarrow> None
     | c # cs \<Rightarrow> if is_digit c then Some (digits_tail cs) else None)"

definition number_part :: "string \<Rightarrow> string option" where
  "number_part s = (case s of
       [] \<Rightarrow> None
     | c # cs \<Rightarrow>
         if c = CHR ''.'' then digitpart cs
         else (case digitpart s of
                 None \<Rightarrow> None
               | Some r \<Rightarrow>
                   (case r of
                      [] \<Rightarrow> Some r
                    | p # r' \<Rightarrow>
                        if p = CHR ''.'' then
                          (case digitpart r' of None \<Rightarrow> Some r' | Some r'' \<Rightarrow> Some r'')
                        else Some r)))"

definition drop_sign :: "string \<Rightarrow> string" where
  "drop_sign s = (case s of
       [] \<Rightarrow> []
     | c # cs \<Rightarrow> if c = CHR ''+'' \<or> c = CHR ''-'' then cs else s)"

definition exponent_part :: "string \<Rightarrow> string option" where
  "exponent_part r = (case r of
       [] \<Rightarrow> Some []
     | c # cs \<Rightarrow>
         if c = CHR ''e'' \<or> c = CHR ''E'' then digitpart (drop_sign cs) else Some r)"

text \<open>
  The whitespace \<^verbatim>\<open>float\<close> strips: the ASCII whitespace of C, and the Latin-1 spaces,
  which the conversion first turns into blanks.
\<close>

definition is_float_space :: "char \<Rightarrow> bool" where
  "is_float_space c = (let n = code c in
     (9 \<le> n \<and> n \<le> 13) \<or> n = 32 \<or> n = 133 \<or> n = 160)"

definition float_strip :: "string \<Rightarrow> string" where
  "float_strip s = rev (dropWhile is_float_space (rev (dropWhile is_float_space s)))"

definition float_syntax :: "string \<Rightarrow> bool" where
  "float_syntax t = (let u = drop_sign t in
     if py_lower u = ''inf'' \<or> py_lower u = ''infinity'' \<or> py_lower u = ''nan'' then True
     else (case number_part u of
             None \<Rightarrow> False
           | Some r \<Rightarrow> exponent_part r = Some []))"

section \<open>Values of the runtime and of the libraries\<close>

text \<open>A \<^verbatim>\<open>pandas.Timestamp\<close> (or \<^verbatim>\<open>datetime\<close>), to the second.\<close>

record timestamp =
  year :: nat
  month :: nat
  day :: nat
  hour :: nat
  minute :: nat
  second :: nat

text \<open>\<^verbatim>\<open>Timestamp.normalize()\<close>: the same day at midnight.\<close>

definition ts_normalize :: "timestamp \<Rightarrow> timestamp" where
  "ts_normalize d = d\<lparr>hour := 0, minute := 0, second := 0\<rparr>"

text \<open>
  What the program takes from Python and pandas without defining it.  The type \<open>'f\<close> is
  the type of floating-point values; their arithmetic and rounding are not modelled.
  \<^item> \<open>float_of_literal t\<close>: the value of \<^verbatim>\<open>float(t)\<close> for a string \<open>t\<close> that \<^verbatim>\<open>float\<close> accepts;
  \<^item> \<open>float_of_int i\<close>: \<^verbatim>\<open>float(i)\<close> for an integer;
  \<^item> \<open>div_100 v\<close>: \<^verbatim>\<open>v / 100.0\<close>;
  \<^item> \<open>str_of_float v\<close>: \<^verbatim>\<open>str(v)\<close>;
  \<^item> \<open>to_datetime dayfirst s\<close>: \<^verbatim>\<open>pd.to_datetime(s, dayfirst=dayfirst, errors="coerce")\<close>,
    \<open>None\<close> for \<^verbatim>\<open>NaT\<close>.
\<close>

record 'f pyrt =
  float_of_literal :: "string \<Rightarrow> 'f"
  float_of_int :: "int \<Rightarrow> 'f"
  div_100 :: "'f \<Rightarrow> 'f"
  str_of_float :: "'f \<Rightarrow> string"
  to_datetime :: "bool \<Rightarrow> string \<Rightarrow> timestamp option"

text \<open>\<^verbatim>\<open>float(s)\<close> for a string: \<open>None\<close> is \<^verbatim>\<open>ValueError\<close>.\<close>

definition py_float :: "'f pyrt \<Rightarrow> string \<Rightarrow> 'f option" where
  "py_float rt s = (let t = float_strip s in
     if float_syntax t then Some (float_of_literal rt t) else None)"

text \<open>
  A cell of the raw grid, read with \<^verbatim>\<open>dtype=object\<close>: \<^verbatim>\<open>None\<close>, the float NaN (an empty
  cell), a boolean, an integer, a float other than NaN, text, or a date (a \<^verbatim>\<open>Timestamp\<close> or
  \<^verbatim>\<open>datetime\<close>).
\<close>

datatype 'f cell =
    CNone
  | CNaN
  | CBool bool
  | CInt int
  | CFloat 'f
  | CStr string
  | CDate timestamp

subsection \<open>\<^verbatim>\<open>str(x)\<close>\<close>

definition digit_char :: "nat \<Rightarrow> char" where
  "digit_char d = char_of (48 + d)"

fun dec :: "nat \<Rightarrow> string" where
  "dec n = (if n < 10 then [digit_char n] else dec (n div 10) @ [digit_char (n mod 10)])"

declare dec.simps [simp del]

text \<open>Decimal digits, padded with zeros to at least \<open>k\<close> characters.\<close>

definition pad :: "nat \<Rightarrow> nat \<Rightarrow> string" where
  "pad k n = replicate (k - length (dec n)) (CHR ''0'') @ dec n"

definition str_of_int :: "int \<Rightarrow> string" where
  "str_of_int i = (if i < 0 then CHR ''-'' # dec (nat (- i)) else dec (nat i))"

definition str_of_timestamp :: "timestamp \<Rightarrow> string" where
  "str_of_timestamp d =
     pad 4 (year d) @ ''-'' @ pad 2 (month d) @ ''-'' @ pad 2 (day d) @ '' '' @
     pad 2 (hour d) @ '':'' @ pad 2 (minute d) @ '':'' @ pad 2 (second d)"

fun py_str :: "'f pyrt \<Rightarrow> 'f cell \<Rightarrow> string" where
  "py_str rt CNone = ''None''"
| "py_str rt CNaN = ''nan''"
| "py_str rt (CBool b) = (if b then ''True'' else ''False'')"
| "py_str rt (CInt i) = str_of_int i"
| "py_str rt (CFloat v) = str_of_float rt v"
| "py_str rt (CStr s) = s"
| "py_str rt (CDate d) = str_of_timestamp d"

section \<open>\<^verbatim>\<open>parse_number\<close>\<close>

text \<open>
  \<^verbatim>\<open>backup_normalize_daily_reports.py\<close>, \<^verbatim>\<open>parse_number\<close>.  A boolean is an \<^verbatim>\<open>int\<close> in Python.
\<close>

definition parse_number :: "'f pyrt \<Rightarrow> 'f cell \<Rightarrow> 'f option \<times> bool" where
  "parse_number rt x = (case x of
       CNone \<Rightarrow> (None, False)
     | CNaN \<Rightarrow> (None, False)
     | CBool b \<Rightarrow> (Some (float_of_int rt (if b then 1 else 0)), False)
     | CInt i \<Rightarrow> (Some (float_of_int rt i), False)
     | CFloat v \<Rightarrow> (Some v, False)
     | _ \<Rightarrow>
        (let s = py_strip (py_str rt x) in
         if s = [] \<or> py_lower s = ''nan'' \<or> py_lower s = ''none'' \<or> py_lower s = ''-''
         then (None, False)
         else
           let is_pct = ends_with_percent s;
               s1 = (if is_pct then py_strip (butlast s) else s);
               s2 = replace_char (CHR '','') (CHR ''.'')
                      (remove_char (CHR '' '') (remove_char (char_of (160::nat)) s1))
           in (case py_float rt s2 of
                 None \<Rightarrow> (None, is_pct)
               | Some val \<Rightarrow> (Some (if is_pct then div_100 rt val else val), is_pct))))"

text \<open>\<^verbatim>\<open>normalize_daily_reports.py\<close>, \<^verbatim>\<open>parse_number\<close>.\<close>

definition parse_number_ndr :: "'f pyrt \<Rightarrow> 'f cell \<Rightarrow> 'f option \<times> bool" where
  "parse_number_ndr rt raw = (case raw of
       CNone \<Rightarrow> (None, False)
     | _ \<Rightarrow>
        (let s = py_strip (py_str rt raw);
             is_pct = ends_with_percent s;
             s_clean = (if is_pct then butlast s else s);
             s_clean = replace_char (CHR '','') (CHR ''.'') (remove_char (CHR ''.'') s_clean)
         in (case py_float rt s_clean of
               Some val \<Rightarrow> (Some (if is_pct then div_100 rt val else val), is_pct)
             | None \<Rightarrow> (None, is_pct))))"

section \<open>Regular expressions of the scripts\<close>

definition is_sep :: "char \<Rightarrow> bool" where
  "is_sep c = (c = CHR ''/'' \<or> c = CHR ''-'')"

text \<open>
  \<^verbatim>\<open>DATE_RE.match(s)\<close> for \<^verbatim>\<open>^\s*(\d{1,2})[/-](\d{1,2})[/-](\d{2,4})\s*$\<close>.  A run of digits is
  followed by a character that is no digit, so each group takes a whole run.
\<close>

definition date_re_match :: "string \<Rightarrow> bool" where
  "date_re_match s =
     (let s1 = dropWhile is_space s;
          d1 = takeWhile is_digit s1; r1 = dropWhile is_digit s1
      in 1 \<le> length d1 \<and> length d1 \<le> 2 \<and>
         (case r1 of
            [] \<Rightarrow> False
          | a # r2 \<Rightarrow>
              is_sep a \<and>
              (let d2 = takeWhile is_digit r2; r3 = dropWhile is_digit r2
               in 1 \<le> length d2 \<and> length d2 \<le> 2 \<and>
                  (case r3 of
                     [] \<Rightarrow> False
                   | b # r4 \<Rightarrow>
                       is_sep b \<and>
                       (let d3 = takeWhile is_digit r4; r5 = dropWhile is_digit r4
                        in 2 \<le> length d3 \<and> length d3 \<le> 4 \<and> list_all is_space r5)))))"

definition eat_digits :: "nat \<Rightarrow> string \<Rightarrow> string option" where
  "eat_digits n s =
     (if n \<le> length s \<and> list_all is_digit (take n s) then Some (drop n s) else None)"

definition eat_char :: "char \<Rightarrow> string \<Rightarrow> string option" where
  "eat_char c s = (case s of [] \<Rightarrow> None | x # r \<Rightarrow> if x = c then Some r else None)"

text \<open>\<^verbatim>\<open>$\<close> matches at the end and before a final newline.\<close>

definition at_end :: "string \<Rightarrow> bool" where
  "at_end r = (r = [] \<or> r = [char_of (10::nat)])"

text \<open>\<^verbatim>\<open>ISO_RE.match(s)\<close> for \<^verbatim>\<open>^\d{4}-\d{2}-\d{2}(?:\s+\d{2}:\d{2}:\d{2})?$\<close>.\<close>

definition iso_re_match :: "string \<Rightarrow> bool" where
  "iso_re_match s =
     (case Option.bind (Option.bind (Option.bind (Option.bind (eat_digits 4 s)
             (eat_char (CHR ''-''))) (eat_digits 2)) (eat_char (CHR ''-''))) (eat_digits 2) of
        None \<Rightarrow> False
      | Some r \<Rightarrow>
          at_end r \<or>
          (r \<noteq> [] \<and> is_space (hd r) \<and>
           (case Option.bind (Option.bind (Option.bind (Option.bind
                   (eat_digits 2 (dropWhile is_space r))
                   (eat_char (CHR '':''))) (eat_digits 2)) (eat_char (CHR '':''))) (eat_digits 2) of
              None \<Rightarrow> False
            | Some r' \<Rightarrow> at_end r')))"

section \<open>Helpers of the scripts\<close>

text \<open>\<^verbatim>\<open>SECTION_SYNONYMS\<close>, the same dictionary in both scripts.\<close>

definition SECTION_SYNONYMS :: "(string \<times> string) list" where
  "SECTION_SYNONYMS =
     [(''RESTAURANTE'', ''RESTAURANT''), (''RESTAURANT'', ''RESTAURANT''),
      (''BAR'', ''BAR''), (''BER'', ''BAR''),
      (''BODA'', ''BANQUETING''), (''BENQUETING'', ''BANQUETING''),
      (''BANQUETING'', ''BANQUETING''),
      (''EMPRESA'', ''MICE''), (''MICE'', ''MICE''),
      (''PARTICULAR'', ''INDIVIDUALS''), (''INDIVIDUALS'', ''INDIVIDUALS''),
      (''TIENDA RESTAURANTE 43'', ''SHOP''), (''SHOP'', ''SHOP''),
      (''WALK IN'', ''WALKIN''), (''WALKIN'', ''WALKIN''),
      (''INTERNO'', ''EMPLOYEES''), (''EMPLEADOS'', ''EMPLOYEES''),
      (''Empleados'', ''EMPLOYEES'')]"

text \<open>\<^verbatim>\<open>backup_normalize_daily_reports.py\<close>, \<^verbatim>\<open>is_date_like\<close>.\<close>

definition is_date_like :: "'f pyrt \<Rightarrow> 'f cell \<Rightarrow> bool" where
  "is_date_like rt x = (case x of
       CNone \<Rightarrow> False
     | CNaN \<Rightarrow> False
     | CDate _ \<Rightarrow> True
     | _ \<Rightarrow>
        (let s = py_strip (py_str rt x) in
         if s = [] then False
         else (case to_datetime rt True s of
                 None \<Rightarrow> False
               | Some d \<Rightarrow> 1900 \<le> year d \<and> year d \<le> 2100)))"

text \<open>\<^verbatim>\<open>normalize_daily_reports.py\<close>, \<^verbatim>\<open>is_date_like\<close>.\<close>

definition is_date_like_ndr :: "'f pyrt \<Rightarrow> 'f cell \<Rightarrow> bool" where
  "is_date_like_ndr rt x = (case x of
       CNone \<Rightarrow> False
     | CNaN \<Rightarrow> False
     | _ \<Rightarrow> date_re_match (py_strip (py_str rt x)))"

text \<open>\<^verbatim>\<open>backup_normalize_daily_reports.py\<close>, \<^verbatim>\<open>parse_date\<close>; \<open>None\<close> is \<^verbatim>\<open>NaT\<close>.\<close>

definition parse_date :: "'f pyrt \<Rightarrow> 'f cell \<Rightarrow> timestamp option" where
  "parse_date rt x =
     (let s = py_strip (py_str rt x) in
      if s = [] then None
      else if iso_re_match s then to_datetime rt False s
      else to_datetime rt True s)"

text \<open>
  \<^verbatim>\<open>min\<close> and \<^verbatim>\<open>max\<close> of a list; the scripts call them on lists of at least three elements.
\<close>

definition py_min :: "nat list \<Rightarrow> nat" where
  "py_min xs = fold min (tl xs) (hd xs)"

definition py_max :: "nat list \<Rightarrow> nat" where
  "py_max xs = fold max (tl xs) (hd xs)"

text \<open>
  The inner loop of \<^verbatim>\<open>find_date_header_row\<close> over \<^verbatim>\<open>range(max(date_cols) + 1, len(row))\<close>:
  the first text cell whose stripped, upper-cased text passes the test, or \<open>-1\<close>.
\<close>

fun total_scan :: "(string \<Rightarrow> bool) \<Rightarrow> 'f cell list \<Rightarrow> nat list \<Rightarrow> int" where
  "total_scan is_tot row [] = - 1"
| "total_scan is_tot row (c # cs) =
     (case row ! c of
        CStr v \<Rightarrow> if is_tot (py_upper (py_strip v)) then int c else total_scan is_tot row cs
      | _ \<Rightarrow> total_scan is_tot row cs)"

text \<open>
  The outer loop of \<^verbatim>\<open>find_date_header_row\<close>, which is the same in both scripts up to
  the threshold, the date test and the test on the text of the totals cell.  \<open>r\<close> is the
  index of the first row of the rows still to scan.
\<close>

fun header_scan ::
  "nat \<Rightarrow> ('f cell \<Rightarrow> bool) \<Rightarrow> (string \<Rightarrow> bool) \<Rightarrow> nat \<Rightarrow> 'f cell list list
     \<Rightarrow> int \<times> int \<times> int \<times> int" where
  "header_scan thr idl is_tot r [] = (- 1, - 1, - 1, - 1)"
| "header_scan thr idl is_tot r (row # rows) =
     (let date_cols = filter (\<lambda>c. idl (row ! c)) [0..<length row] in
      if thr \<le> length date_cols then
        (let tot_col = total_scan is_tot row [py_max date_cols + 1..<length row];
             first = py_min date_cols; last = py_max date_cols
         in (int r, int first, int last, tot_col))
      else header_scan thr idl is_tot (Suc r) rows)"

text \<open>\<^verbatim>\<open>backup_normalize_daily_reports.py\<close>, \<^verbatim>\<open>find_date_header_row\<close>.\<close>

definition find_date_header_row ::
  "'f pyrt \<Rightarrow> 'f cell list list \<Rightarrow> int \<times> int \<times> int \<times> int" where
  "find_date_header_row rt df =
     header_scan 3 (is_date_like rt) (\<lambda>u. u = ''TOTAL'' \<or> u = ''TOTAL '') 0 df"

text \<open>\<^verbatim>\<open>normalize_daily_reports.py\<close>, \<^verbatim>\<open>find_date_header_row\<close>.\<close>

definition find_date_header_row_ndr ::
  "'f pyrt \<Rightarrow> 'f cell list list \<Rightarrow> int \<times> int \<times> int \<times> int" where
  "find_date_header_row_ndr rt df =
     header_scan 5 (is_date_like_ndr rt) (\<lambda>u. u = ''TOTAL'') 0 df"

section \<open>Errors, files and tables\<close>

text \<open>
  The exceptions the scripts raise or let through: the \<^verbatim>\<open>ValueError\<close> for an unsupported
  suffix, the \<^verbatim>\<open>RuntimeError\<close> for a grid without a header of dates, an index out of range,
  the exit of \<^verbatim>\<open>argparse\<close> on a command line without files, a failure to read a file, and
  the two \<^verbatim>\<open>ValueError\<close>s of \<^verbatim>\<open>pd.concat\<close>.
\<close>

datatype error =
    UnsupportedFormat string
  | HeaderNotFound string
  | IndexError
  | UsageError
  | ReadError string
  | NoObjectsToConcatenate
  | AllObjectsNone

text \<open>A \<^verbatim>\<open>pathlib.Path\<close>, by the three attributes the scripts read.\<close>

record path =
  name :: string
  suffix :: string
  stem :: string

text \<open>The files on disk, as \<^verbatim>\<open>pd.read_excel\<close> and \<^verbatim>\<open>pd.read_csv\<close> see them.\<close>

record 'f io =
  read_excel :: "path \<Rightarrow> string \<Rightarrow> error + 'f cell list list"
  read_csv :: "path \<Rightarrow> error + 'f cell list list"

text \<open>A \<^verbatim>\<open>DataFrame\<close> holds rows of equal length.\<close>

definition rectangular :: "'a list list \<Rightarrow> bool" where
  "rectangular df = (\<forall>row \<in> set df. \<forall>row' \<in> set df. length row = length row')"

text \<open>\<^verbatim>\<open>xs.iloc[i]\<close>: a negative index counts from the end.\<close>

definition iloc :: "'a list \<Rightarrow> int \<Rightarrow> error + 'a" where
  "iloc xs i =
     (let n = int (length xs); j = (if i < 0 then i + n else i)
      in if 0 \<le> j \<and> j < n then Inr (xs ! nat j) else Inl IndexError)"

text \<open>\<^verbatim>\<open>df.iat[r, c]\<close>.\<close>

definition iat :: "'a list list \<Rightarrow> int \<Rightarrow> int \<Rightarrow> error + 'a" where
  "iat df r c = (case iloc df r of Inl e \<Rightarrow> Inl e | Inr row \<Rightarrow> iloc row c)"

text \<open>\<^verbatim>\<open>d[k] = v\<close> on a dictionary, which keeps the order of insertion.\<close>

fun dict_set :: "int \<Rightarrow> 'v \<Rightarrow> (int \<times> 'v) list \<Rightarrow> (int \<times> 'v) list" where
  "dict_set k v [] = [(k, v)]"
| "dict_set k v (kv # m) = (if fst kv = k then (k, v) # m else kv # dict_set k v m)"

record 'f out_record =
  source_file :: string
  section_name :: "string option"
  metric_label :: "string option"
  date :: "timestamp option"
  value_raw :: string
  value_num :: "'f option"
  is_percent :: bool
  is_total :: bool

record 'f table =
  columns :: "string list"
  rows :: "'f out_record list"

definition COLS :: "string list" where
  "COLS = [''source_file'', ''section'', ''metric_label'', ''date'', ''value_raw'',
           ''value_num'', ''is_percent'', ''is_total'']"

text \<open>
  \<^verbatim>\<open>pd.DataFrame.from_records(records)\<close> on dictionaries with the eight keys: a table of
  no columns for no record.
\<close>

definition from_records :: "'f out_record list \<Rightarrow> 'f table" where
  "from_records records = \<lparr>columns = (if records = [] then [] else COLS), rows = records\<rparr>"

text \<open>\<^verbatim>\<open>t.reindex(columns=cs)\<close>; a row of the model has every field.\<close>

definition reindex :: "string list \<Rightarrow> 'f table \<Rightarrow> 'f table" where
  "reindex cs t = \<lparr>columns = cs, rows = rows t\<rparr>"

text \<open>\<^verbatim>\<open>pd.DataFrame()\<close>.\<close>

definition empty_frame :: "'f table" where
  "empty_frame = \<lparr>columns = [], rows = []\<rparr>"

text \<open>
  \<^verbatim>\<open>pd.concat(frames, ignore_index=True)\<close> on tables: the columns in the order of their
  first appearance, the rows one table after the other.
\<close>

definition concat_tables :: "'f table list \<Rightarrow> 'f table" where
  "concat_tables frames =
     \<lparr>columns = rev (remdups (rev (concat (map columns frames)))),
      rows = concat (map rows frames)\<rparr>"

section \<open>\<^verbatim>\<open>normalize_file\<close> of \<^verbatim>\<open>backup_normalize_daily_reports.py\<close>\<close>

text \<open>The reading of the file, by its suffix.\<close>

definition load :: "'f io \<Rightarrow> path \<Rightarrow> string \<Rightarrow> error + 'f cell list list" where
  "load fs p sheet_name =
     (let sfx = py_lower (suffix p) in
      if sfx = ''.xlsx'' \<or> sfx = ''.xlsm'' \<or> sfx = ''.xls'' then read_excel fs p sheet_name
      else if sfx = ''.csv'' then read_csv fs p
      else Inl (UnsupportedFormat (suffix p)))"

text \<open>The loop that fills \<^verbatim>\<open>col2date\<close>, over \<^verbatim>\<open>range(first_c, last_c + 1)\<close>.\<close>

fun col2date_loop ::
  "'f pyrt \<Rightarrow> 'f cell list list \<Rightarrow> int \<Rightarrow> int list \<Rightarrow> (int \<times> timestamp) list
     \<Rightarrow> error + (int \<times> timestamp) list" where
  "col2date_loop rt df hdr [] col2date = Inr col2date"
| "col2date_loop rt df hdr (c # cs) col2date =
     (case iat df hdr c of
        Inl e \<Rightarrow> Inl e
      | Inr v \<Rightarrow>
          (case parse_date rt v of
             None \<Rightarrow> col2date_loop rt df hdr cs col2date
           | Some d \<Rightarrow> col2date_loop rt df hdr cs (dict_set c (ts_normalize d) col2date)))"

text \<open>The loop that looks for the label, over \<^verbatim>\<open>range(0, first_c)\<close>.\<close>

fun label_loop :: "'f cell list \<Rightarrow> int list \<Rightarrow> string option \<Rightarrow> error + string option" where
  "label_loop row [] label = Inr label"
| "label_loop row (c # cs) label =
     (case iloc row c of
        Inl e \<Rightarrow> Inl e
      | Inr v \<Rightarrow>
          (case v of
             CStr t \<Rightarrow>
               if py_strip t \<noteq> [] then label_loop row cs (Some (py_strip t))
               else label_loop row cs label
           | _ \<Rightarrow> label_loop row cs label))"

text \<open>\<^verbatim>\<open>if label: up = label.upper(); if up in SECTION_SYNONYMS: current_section = ...\<close>.\<close>

definition section_update :: "string option \<Rightarrow> string option \<Rightarrow> string option" where
  "section_update label current_section = (case label of
       None \<Rightarrow> current_section
     | Some l \<Rightarrow>
         if l \<noteq> [] then
           (case map_of SECTION_SYNONYMS (py_upper l) of
              Some canon \<Rightarrow> Some canon
            | None \<Rightarrow> current_section)
         else current_section)"

text \<open>\<^verbatim>\<open>metric_label\<close>: the label when it is no key of \<^verbatim>\<open>SECTION_SYNONYMS\<close>.\<close>

definition metric_of :: "string option \<Rightarrow> string option" where
  "metric_of label = (case label of
       None \<Rightarrow> None
     | Some l \<Rightarrow>
         if l \<noteq> [] \<and> map_of SECTION_SYNONYMS (py_upper l) = None then Some l else None)"

text \<open>\<^verbatim>\<open>v is None or (isinstance(v, float) and np.isnan(v))\<close>.\<close>

definition is_missing :: "'f cell \<Rightarrow> bool" where
  "is_missing v = (case v of CNone \<Rightarrow> True | CNaN \<Rightarrow> True | _ \<Rightarrow> False)"

text \<open>The loop over \<^verbatim>\<open>col2date.items()\<close> that emits the daily records of a row.\<close>

fun daily_loop ::
  "'f pyrt \<Rightarrow> string \<Rightarrow> string option \<Rightarrow> string option \<Rightarrow> 'f cell list
     \<Rightarrow> (int \<times> timestamp) list \<Rightarrow> 'f out_record list \<Rightarrow> error + 'f out_record list" where
  "daily_loop rt fname sec metric row [] records = Inr records"
| "daily_loop rt fname sec metric row (cd # items) records =
     (case iloc row (fst cd) of
        Inl e \<Rightarrow> Inl e
      | Inr v \<Rightarrow>
          if is_missing v then daily_loop rt fname sec metric row items records
          else
            let s = py_strip (py_str rt v) in
            if s = [] then daily_loop rt fname sec metric row items records
            else if is_date_like rt v then daily_loop rt fname sec metric row items records
            else
              let r = parse_number rt (CStr s) in
              daily_loop rt fname sec metric row items
                (records @
                 [\<lparr>source_file = fname, section_name = sec, metric_label = metric,
                   date = Some (snd cd), value_raw = s, value_num = fst r,
                   is_percent = snd r, is_total = False\<rparr>]))"

text \<open>The emission of the total of a row.\<close>

definition total_step ::
  "'f pyrt \<Rightarrow> string \<Rightarrow> string option \<Rightarrow> string option \<Rightarrow> 'f cell list \<Rightarrow> int
     \<Rightarrow> 'f out_record list \<Rightarrow> error + 'f out_record list" where
  "total_step rt fname sec metric row total_c records =
     (if total_c \<noteq> - 1 \<and> total_c < int (length row) then
        (case iloc row total_c of
           Inl e \<Rightarrow> Inl e
         | Inr tv \<Rightarrow>
             if \<not> is_missing tv \<and> py_strip (py_str rt tv) \<noteq> [] then
               let s = py_strip (py_str rt tv); r = parse_number rt (CStr s) in
               Inr (records @
                    [\<lparr>source_file = fname, section_name = sec, metric_label = metric,
                      date = None, value_raw = s, value_num = fst r,
                      is_percent = snd r, is_total = True\<rparr>])
             else Inr records)
      else Inr records)"

text \<open>
  The body of the loop over the rows below the header.  The state is the current section
  and the records emitted so far.
\<close>

definition row_step ::
  "'f pyrt \<Rightarrow> string \<Rightarrow> int \<Rightarrow> int \<Rightarrow> (int \<times> timestamp) list
     \<Rightarrow> string option \<times> 'f out_record list \<Rightarrow> 'f cell list
     \<Rightarrow> error + (string option \<times> 'f out_record list)" where
  "row_step rt fname first_c total_c col2date st row =
     (case label_loop row [0..first_c - 1] None of
        Inl e \<Rightarrow> Inl e
      | Inr label \<Rightarrow>
          let current_section = section_update label (fst st);
              metric_label = metric_of label
          in (case daily_loop rt fname current_section metric_label row col2date (snd st) of
                Inl e \<Rightarrow> Inl e
              | Inr records \<Rightarrow>
                  (case total_step rt fname current_section metric_label row total_c records of
                     Inl e \<Rightarrow> Inl e
                   | Inr records' \<Rightarrow> Inr (current_section, records'))))"

fun rows_loop ::
  "'f pyrt \<Rightarrow> string \<Rightarrow> int \<Rightarrow> int \<Rightarrow> (int \<times> timestamp) list
     \<Rightarrow> 'f cell list list \<Rightarrow> string option \<times> 'f out_record list
     \<Rightarrow> error + (string option \<times> 'f out_record list)" where
  "rows_loop rt fname first_c total_c col2date [] st = Inr st"
| "rows_loop rt fname first_c total_c col2date (row # below) st =
     (case row_step rt fname first_c total_c col2date st row of
        Inl e \<Rightarrow> Inl e
      | Inr st' \<Rightarrow> rows_loop rt fname first_c total_c col2date below st')"

text \<open>The records of a grid: \<^verbatim>\<open>normalize_file\<close> from the header search to the last row.\<close>

definition normalize_records ::
  "'f pyrt \<Rightarrow> string \<Rightarrow> 'f cell list list \<Rightarrow> error + 'f out_record list" where
  "normalize_records rt fname df =
     (case find_date_header_row rt df of
        (date_hdr_row, first_c, last_c, total_c) \<Rightarrow>
          if date_hdr_row < 0 then Inl (HeaderNotFound fname)
          else
            (case col2date_loop rt df date_hdr_row [first_c..last_c] [] of
               Inl e \<Rightarrow> Inl e
             | Inr col2date \<Rightarrow>
                 (case rows_loop rt fname first_c total_c col2date
                         (drop (nat (date_hdr_row + 1)) df) (None, []) of
                    Inl e \<Rightarrow> Inl e
                  | Inr st \<Rightarrow> Inr (snd st))))"

definition normalize_file :: "'f pyrt \<Rightarrow> 'f io \<Rightarrow> path \<Rightarrow> string \<Rightarrow> error + 'f table" where
  "normalize_file rt fs p sheet_name =
     (case load fs p sheet_name of
        Inl e \<Rightarrow> Inl e
      | Inr df \<Rightarrow>
          (case normalize_records rt (name p) df of
             Inl e \<Rightarrow> Inl e
           | Inr records \<Rightarrow> Inr (reindex COLS (from_records records))))"

section \<open>\<^verbatim>\<open>main\<close> of \<^verbatim>\<open>backup_normalize_daily_reports.py\<close>\<close>

text \<open>
  The parsed command line.  \<^verbatim>\<open>files\<close> is declared with \<^verbatim>\<open>nargs="+"\<close>: \<^verbatim>\<open>argparse\<close> exits with
  a usage error when no file is given.  The preview files of \<^verbatim>\<open>--peek\<close> and the printed
  summary are not modelled; the result of \<open>main\<close> is the master table it writes.
\<close>

record args =
  out :: string
  sheet :: string
  peek :: bool
  files :: "path list"

fun frames_loop ::
  "'f pyrt \<Rightarrow> 'f io \<Rightarrow> string \<Rightarrow> path list \<Rightarrow> 'f table list \<Rightarrow> error + 'f table list" where
  "frames_loop rt fs sheet_name [] frames = Inr frames"
| "frames_loop rt fs sheet_name (f # fs') frames =
     (case normalize_file rt fs f sheet_name of
        Inl e \<Rightarrow> Inl e
      | Inr df \<Rightarrow> frames_loop rt fs sheet_name fs' (frames @ [df]))"

text \<open>The aggregation: \<^verbatim>\<open>pd.concat(...) if frames else pd.DataFrame()\<close>, then \<^verbatim>\<open>reindex\<close>.\<close>

definition aggregate :: "'f table list \<Rightarrow> 'f table" where
  "aggregate frames =
     reindex COLS (if frames \<noteq> [] then concat_tables frames else empty_frame)"

definition main :: "'f pyrt \<Rightarrow> 'f io \<Rightarrow> args \<Rightarrow> error + 'f table" where
  "main rt fs a =
     (if files a = [] then Inl UsageError
      else (case frames_loop rt fs (sheet a) (files a) [] of
              Inl e \<Rightarrow> Inl e
            | Inr frames \<Rightarrow> Inr (aggregate frames)))"

section \<open>\<^verbatim>\<open>normalize_file\<close> and \<^verbatim>\<open>main\<close> of \<^verbatim>\<open>normalize_daily_reports.py\<close>\<close>

text \<open>
  The body of this \<^verbatim>\<open>normalize_file\<close> ends after the check of the header: the function
  returns \<^verbatim>\<open>None\<close>, here \<open>Inr None\<close>.
\<close>

definition normalize_file_ndr ::
  "'f pyrt \<Rightarrow> 'f io \<Rightarrow> path \<Rightarrow> string \<Rightarrow> error + 'f table option" where
  "normalize_file_ndr rt fs p sheet_name =
     (case load fs p sheet_name of
        Inl e \<Rightarrow> Inl e
      | Inr df \<Rightarrow>
          (case find_date_header_row_ndr rt df of
             (date_hdr_row, first_c, last_c, total_c) \<Rightarrow>
               if date_hdr_row < 0 then Inl (HeaderNotFound (name p)) else Inr None))"

fun frames_loop_ndr ::
  "'f pyrt \<Rightarrow> 'f io \<Rightarrow> string \<Rightarrow> path list \<Rightarrow> 'f table option list
     \<Rightarrow> error + 'f table option list" where
  "frames_loop_ndr rt fs sheet_name [] frames = Inr frames"
| "frames_loop_ndr rt fs sheet_name (f # fs') frames =
     (case normalize_file_ndr rt fs f sheet_name of
        Inl e \<Rightarrow> Inl e
      | Inr df \<Rightarrow> frames_loop_ndr rt fs sheet_name fs' (frames @ [df]))"

text \<open>
  \<^verbatim>\<open>pd.concat(frames)\<close> on a list that may hold \<^verbatim>\<open>None\<close>: an empty list and a list of
  nothing but \<^verbatim>\<open>None\<close> raise \<^verbatim>\<open>ValueError\<close>; otherwise the \<^verbatim>\<open>None\<close>s are dropped.
\<close>

definition pd_concat :: "'f table option list \<Rightarrow> error + 'f table" where
  "pd_concat frames =
     (if frames = [] then Inl NoObjectsToConcatenate
      else
        let objs = concat (map (\<lambda>x. case x of None \<Rightarrow> [] | Some t \<Rightarrow> [t]) frames) in
        if objs = [] then Inl AllObjectsNone else Inr (concat_tables objs))"

definition main_ndr :: "'f pyrt \<Rightarrow> 'f io \<Rightarrow> args \<Rightarrow> error + 'f table" where
  "main_ndr rt fs a =
     (if files a = [] then Inl UsageError
      else (case frames_loop_ndr rt fs (sheet a) (files a) [] of
              Inl e \<Rightarrow> Inl e
            | Inr frames \<Rightarrow>
                (case pd_concat frames of
                   Inl e \<Rightarrow> Inl e
                 | Inr master \<Rightarrow> Inr (reindex COLS master))))"

section \<open>A runtime for examples\<close>

text \<open>
  A runtime on which the model can be evaluated.  A float is kept as the text that denotes
  it, and \<open>to_datetime\<close> reads only the ISO form \<^verbatim>\<open>YYYY-MM-DD\<close>, alone or followed by one
  blank and \<^verbatim>\<open>HH:MM:SS\<close>; every other string is \<^verbatim>\<open>NaT\<close>.
\<close>

definition digits_val :: "string \<Rightarrow> nat" where
  "digits_val s = foldl (\<lambda>a c. 10 * a + (code c - 48)) 0 s"

definition sample_to_datetime :: "bool \<Rightarrow> string \<Rightarrow> timestamp option" where
  "sample_to_datetime dayfirst s =
     (if iso_re_match s \<and> (length s = 10 \<or> length s = 19) then
        (let mo = digits_val (take 2 (drop 5 s)); dd = digits_val (take 2 (drop 8 s)) in
         if 1 \<le> mo \<and> mo \<le> 12 \<and> 1 \<le> dd \<and> dd \<le> 31 then
           Some \<lparr>year = digits_val (take 4 s), month = mo, day = dd,
                 hour = digits_val (take 2 (drop 11 s)),
                 minute = digits_val (take 2 (drop 14 s)),
                 second = digits_val (take 2 (drop 17 s))\<rparr>
         else None)
      else None)"

definition sample_rt :: "string pyrt" where
  "sample_rt =
     \<lparr>float_of_literal = (\<lambda>t. t), float_of_int = str_of_int,
      div_100 = (\<lambda>v. v @ ''/100''), str_of_float = (\<lambda>v. v),
      to_datetime = sample_to_datetime\<rparr>"

text \<open>A disk on which every file holds the grid \<open>df\<close>.\<close>

definition sample_io :: "string cell list list \<Rightarrow> string io" where
  "sample_io df = \<lparr>read_excel = (\<lambda>p sheet_name. Inr df), read_csv = (\<lambda>p. Inr df)\<rparr>"

definition sample_csv :: path where
  "sample_csv = \<lparr>name = ''jan.csv'', suffix = ''.csv'', stem = ''jan''\<rparr>"

definition sample_args :: "path list \<Rightarrow> args" where
  "sample_args ps = \<lparr>out = ''master.csv'', sheet = ''Daily'', peek = False, files = ps\<rparr>"

text \<open>A grid with a title and a header of five dates as text, followed by a totals column.\<close>

definition sample_grid_ndr :: "string cell list list" where
  "sample_grid_ndr =
     [[CStr ''Daily report''],
      [CStr '''', CStr ''1/1/25'', CStr ''2/1/25'', CStr ''3/1/25'', CStr ''4/1/25'',
       CStr ''5/1/25'', CStr ''Total'']]"

section \<open>Vocabulary of the properties\<close>

text \<open>A cell that is text with more than whitespace in it.\<close>

definition is_label_cell :: "'f cell \<Rightarrow> bool" where
  "is_label_cell v = (case v of CStr t \<Rightarrow> py_strip t \<noteq> [] | _ \<Rightarrow> False)"

text \<open>A cell that holds a value: not \<^verbatim>\<open>None\<close>, not NaN, and not blank when printed.\<close>

definition nonempty_cell :: "'f pyrt \<Rightarrow> 'f cell \<Rightarrow> bool" where
  "nonempty_cell rt v = (\<not> is_missing v \<and> py_strip (py_str rt v) \<noteq> [])"

text \<open>
  The label of a row in the words of the specification's overview: the left-most non-empty
  cell among the columns to the left of the first date column.
\<close>

definition leftmost_label :: "'f pyrt \<Rightarrow> int \<Rightarrow> 'f cell list \<Rightarrow> string option" where
  "leftmost_label rt first_c row =
     (case filter (nonempty_cell rt) (take (nat first_c) row) of
        [] \<Rightarrow> None
      | v # _ \<Rightarrow> Some (py_strip (py_str rt v)))"

text \<open>The right-most text cell that is not blank, among the same columns.\<close>

definition rightmost_label :: "'f pyrt \<Rightarrow> int \<Rightarrow> 'f cell list \<Rightarrow> string option" where
  "rightmost_label rt first_c row =
     (case rev (filter is_label_cell (take (nat first_c) row)) of
        [] \<Rightarrow> None
      | v # _ \<Rightarrow> Some (py_strip (py_str rt v)))"

definition label_step :: "'f pyrt \<Rightarrow> string option \<Rightarrow> 'f cell \<Rightarrow> string option" where
  "label_step rt l v = (if is_label_cell v then Some (py_strip (py_str rt v)) else l)"

text \<open>A day of January 2025, at midnight.\<close>

definition sample_day :: "nat \<Rightarrow> timestamp" where
  "sample_day n = \<lparr>year = 2025, month = 1, day = n, hour = 0, minute = 0, second = 0\<rparr>"

text \<open>
  A grid for the backup script: a title, a header of three dates and a totals column, a
  section title and two rows of values.
\<close>

definition sample_grid :: "string cell list list" where
  "sample_grid =
     [[CStr ''Daily report'', CNaN, CNaN, CNaN, CNaN],
      [CNaN, CDate (sample_day 1), CDate (sample_day 2), CDate (sample_day 3), CStr ''Total''],
      [CStr ''Restaurante'', CNaN, CNaN, CNaN, CNaN],
      [CStr ''COMIDA'', CInt 10, CInt 20, CNaN, CInt 30],
      [CStr ''BEBIDA'', CInt 5, CStr ''8%'', CNaN, CInt 13]]"

text \<open>The columns of a row whose cell passes the date test.\<close>

definition date_columns :: "('f cell \<Rightarrow> bool) \<Rightarrow> 'f cell list \<Rightarrow> nat set" where
  "date_columns idl row = {c \<in> {0..<length row}. idl (row ! c)}"

text \<open>A row qualifies as header when it has at least \<open>thr\<close> such columns.\<close>

definition qualifies :: "nat \<Rightarrow> ('f cell \<Rightarrow> bool) \<Rightarrow> 'f cell list \<Rightarrow> bool" where
  "qualifies thr idl row = (thr \<le> card (date_columns idl row))"

text \<open>A text cell that reads \<^verbatim>\<open>TOTAL\<close> once stripped and upper-cased.\<close>

definition is_total_cell :: "'f cell \<Rightarrow> bool" where
  "is_total_cell v = (case v of CStr t \<Rightarrow> py_upper (py_strip t) = ''TOTAL'' | _ \<Rightarrow> False)"

text \<open>The totals cells strictly to the right of the last date column.\<close>

definition total_columns :: "('f cell \<Rightarrow> bool) \<Rightarrow> 'f cell list \<Rightarrow> nat set" where
  "total_columns idl row =
     {c \<in> {0..<length row}. Max (date_columns idl row) < c \<and> is_total_cell (row ! c)}"

text \<open>
  The header location that the specification describes for the row \<open>r\<close>: its index, the
  least and the greatest date column, and the first totals column or \<open>-1\<close>.
\<close>

definition header_of ::
  "('f cell \<Rightarrow> bool) \<Rightarrow> 'f cell list list \<Rightarrow> nat \<Rightarrow> int \<times> int \<times> int \<times> int" where
  "header_of idl df r =
     (let row = df ! r; D = date_columns idl row; T = total_columns idl row
      in (int r, int (Min D), int (Max D), if T = {} then - 1 else int (Min T)))"

text \<open>The test of the inner loop of \<^verbatim>\<open>find_date_header_row\<close> on a cell.\<close>

definition tot_cell :: "(string \<Rightarrow> bool) \<Rightarrow> 'f cell \<Rightarrow> bool" where
  "tot_cell is_tot v = (case v of CStr t \<Rightarrow> is_tot (py_upper (py_strip t)) | _ \<Rightarrow> False)"

text \<open>
  A cell of a mapped date column gives a record when it holds a value that is not itself
  date-like.
\<close>

definition emits :: "'f pyrt \<Rightarrow> 'f cell \<Rightarrow> bool" where
  "emits rt v = (nonempty_cell rt v \<and> \<not> is_date_like rt v)"

text \<open>
  The record of the cell of the row in the mapped date column \<open>cd\<close>.
\<close>

definition daily_record ::
  "'f pyrt \<Rightarrow> string \<Rightarrow> string option \<Rightarrow> string option \<Rightarrow> 'f cell list
     \<Rightarrow> int \<times> timestamp \<Rightarrow> 'f out_record" where
  "daily_record rt fname sec metric row cd =
     (let s = py_strip (py_str rt (row ! nat (fst cd))); r = parse_number rt (CStr s)
      in \<lparr>source_file = fname, section_name = sec, metric_label = metric,
          date = Some (snd cd), value_raw = s, value_num = fst r,
          is_percent = snd r, is_total = False\<rparr>)"

text \<open>
  The daily records of a row: one per entry of \<open>col2date\<close> whose cell gives
  a record, in the order of \<open>col2date\<close>.
\<close>

definition daily_records ::
  "'f pyrt \<Rightarrow> string \<Rightarrow> string option \<Rightarrow> string option \<Rightarrow> 'f cell list
     \<Rightarrow> (int \<times> timestamp) list \<Rightarrow> 'f out_record list" where
  "daily_records rt fname sec metric row col2date =
     map (daily_record rt fname sec metric row)
       (filter (\<lambda>cd. emits rt (row ! nat (fst cd))) col2date)"

text \<open>
  The record of a totals cell.
\<close>

definition total_record ::
  "'f pyrt \<Rightarrow> string \<Rightarrow> string option \<Rightarrow> string option \<Rightarrow> 'f cell \<Rightarrow> 'f out_record" where
  "total_record rt fname sec metric tv =
     (let s = py_strip (py_str rt tv); r = parse_number rt (CStr s)
      in \<lparr>source_file = fname, section_name = sec, metric_label = metric,
          date = None, value_raw = s, value_num = fst r,
          is_percent = snd r, is_total = True\<rparr>)"

text \<open>
  The totals of a row: one record when the totals column exists in the row and its cell
  holds a value, none otherwise.
\<close>

definition total_records ::
  "'f pyrt \<Rightarrow> string \<Rightarrow> string option \<Rightarrow> string option \<Rightarrow> 'f cell list \<Rightarrow> int
     \<Rightarrow> 'f out_record list" where
  "total_records rt fname sec metric row total_c =
     (if 0 \<le> total_c \<and> total_c < int (length row) \<and> nonempty_cell rt (row ! nat total_c)
      then [total_record rt fname sec metric (row ! nat total_c)] else [])"

text \<open>
  The records of a row under the section \<open>sec\<close> in force for it.
\<close>

definition row_records ::
  "'f pyrt \<Rightarrow> string \<Rightarrow> int \<Rightarrow> int \<Rightarrow> (int \<times> timestamp) list \<Rightarrow> string option
     \<Rightarrow> 'f cell list \<Rightarrow> 'f out_record list" where
  "row_records rt fname first_c total_c col2date sec row =
     (let metric = metric_of (rightmost_label rt first_c row)
      in daily_records rt fname sec metric row col2date @
         total_records rt fname sec metric row total_c)"

text \<open>
  A row in which the loops read no index out of range: it has the columns to the left of
  the first date column and the mapped date columns, and the totals column is
  \<open>-1\<close> or an index.
\<close>

definition row_ok :: "int \<Rightarrow> int \<Rightarrow> (int \<times> timestamp) list \<Rightarrow> 'f cell list \<Rightarrow> bool" where
  "row_ok first_c total_c col2date row =
     (first_c \<le> int (length row) \<and> - 1 \<le> total_c \<and>
      list_all (\<lambda>cd. 0 \<le> fst cd \<and> fst cd < int (length row)) col2date)"

text \<open>
  The canonical section of a row whose label is a key of
  \<^verbatim>\<open>SECTION_SYNONYMS\<close> once upper-cased; \<open>None\<close> for
  any other row.
\<close>

definition section_title :: "'f pyrt \<Rightarrow> int \<Rightarrow> 'f cell list \<Rightarrow> string option" where
  "section_title rt first_c row =
     (case rightmost_label rt first_c row of
        None \<Rightarrow> None
      | Some l \<Rightarrow> map_of SECTION_SYNONYMS (py_upper l))"

text \<open>
  The section in force after the rows \<open>rws\<close>: the canonical name of the last
  row among them that is a section title, and the initial section \<open>sec0\<close>
  when there is none.
\<close>

definition section_in_force ::
  "'f pyrt \<Rightarrow> int \<Rightarrow> string option \<Rightarrow> 'f cell list list \<Rightarrow> string option" where
  "section_in_force rt first_c sec0 rws =
     (let titles = filter (\<lambda>row. section_title rt first_c row \<noteq> None) rws
      in if titles = [] then sec0 else section_title rt first_c (last titles))"

text \<open>
  The column-to-date map: the columns of the date span whose header cell parses as a
  date, with that date at midnight.
\<close>

definition col2date_of ::
  "'f pyrt \<Rightarrow> 'f cell list list \<Rightarrow> int \<Rightarrow> int \<Rightarrow> int \<Rightarrow> (int \<times> timestamp) list" where
  "col2date_of rt df hdr first_c last_c =
     List.map_filter
       (\<lambda>c. map_option (\<lambda>d. (c, ts_normalize d)) (parse_date rt (df ! nat hdr ! nat c)))
       [first_c..last_c]"

text \<open>The column-to-date map of \<open>sample_grid\<close>.\<close>

definition sample_col2date :: "(int \<times> timestamp) list" where
  "sample_col2date = [(1, sample_day 1), (2, sample_day 2), (3, sample_day 3)]"

text \<open>The table that the backup script makes of \<open>sample_grid\<close>, read from \<^verbatim>\<open>jan.csv\<close>.\<close>

definition sample_record ::
  "string \<Rightarrow> nat option \<Rightarrow> string \<Rightarrow> string \<Rightarrow> bool \<Rightarrow> string out_record" where
  "sample_record metric d raw num pct =
     \<lparr>source_file = ''jan.csv'', section_name = Some ''RESTAURANT'', metric_label = Some metric,
      date = map_option sample_day d, value_raw = raw, value_num = Some num,
      is_percent = pct, is_total = (d = None)\<rparr>"

definition sample_table :: "string table" where
  "sample_table =
     \<lparr>columns = COLS,
      rows = [sample_record ''COMIDA'' (Some 1) ''10'' ''10'' False,
              sample_record ''COMIDA'' (Some 2) ''20'' ''20'' False,
              sample_record ''COMIDA'' None ''30'' ''30'' False,
              sample_record ''BEBIDA'' (Some 1) ''5'' ''5'' False,
              sample_record ''BEBIDA'' (Some 2) ''8%'' ''8/100'' True,
              sample_record ''BEBIDA'' None ''13'' ''13'' False]\<rparr>"

section \<open>Properties of \<^verbatim>\<open>parse_number\<close>\<close>

lemma dropWhile_keeps_last:
  assumes "s \<noteq> []" "\<not> P (last s)"
  shows "dropWhile P s \<noteq> [] \<and> last (dropWhile P s) = last s"
  using assms
proof (induction s)
  case Nil
  then show ?case by simp
next
  case (Cons a s)
  then show ?case by (cases "s = []") auto
qed

lemma py_strip_keeps_last:
  assumes "s \<noteq> []" "\<not> is_space (last s)"
  shows "py_strip s \<noteq> [] \<and> last (py_strip s) = last s"
proof -
  let ?t = "dropWhile is_space s"
  from dropWhile_keeps_last [of s is_space] assms
  have t: "?t \<noteq> []" "last ?t = last s" by simp_all
  then have "\<not> is_space (hd (rev ?t))" using assms(2) by (simp add: hd_rev)
  then have "dropWhile is_space (rev ?t) = rev ?t" using t(1) by (cases "rev ?t") auto
  then have "py_strip s = ?t" by (simp add: py_strip_def)
  with t show ?thesis by simp
qed

lemma percent_not_space: "\<not> is_space (CHR ''%'')"
  by code_simp

lemma lower_percent: "lower_char (CHR ''%'') = CHR ''%''"
  by code_simp

lemma py_lower_last: "s \<noteq> [] \<Longrightarrow> last (py_lower s) = lower_char (last s)"
  by (simp add: py_lower_def last_map)

lemma percent_not_null_word:
  assumes "s \<noteq> []" "last s = CHR ''%''"
  shows "py_lower s \<noteq> ''nan'' \<and> py_lower s \<noteq> ''none'' \<and> py_lower s \<noteq> ''-''"
proof -
  have "last (py_lower s) = CHR ''%''"
    using assms by (simp add: py_lower_last lower_percent)
  then show ?thesis by auto
qed

text \<open>
  C3.  For a string that ends in \<^verbatim>\<open>%\<close>, \<open>parse_number\<close> of the backup script returns the
  flag \<open>is_percent = True\<close>; the text it hands to \<^verbatim>\<open>float\<close> is the stripped string without
  its final \<^verbatim>\<open>%\<close> (stripped again, blanks and no-break spaces removed, commas turned into
  periods); when \<^verbatim>\<open>float\<close> accepts that text the value is the face value divided by 100,
  and when \<^verbatim>\<open>float\<close> rejects it the result is \<open>(None, True)\<close>, not an error.
\<close>

theorem parse_number_percent:
  assumes "ends_with_percent s"
  shows "parse_number rt (CStr s) =
     (let body = py_strip (butlast (py_strip s));
          body = replace_char (CHR '','') (CHR ''.'')
                   (remove_char (CHR '' '') (remove_char (char_of (160::nat)) body))
      in case py_float rt body of
           None \<Rightarrow> (None, True)
         | Some face \<Rightarrow> (Some (div_100 rt face), True))
     \<and> py_strip s = butlast (py_strip s) @ ''%''"
proof -
  from assms have s: "s \<noteq> []" "last s = CHR ''%''"
    by (simp_all add: ends_with_percent_def)
  then have "\<not> is_space (last s)" by (simp add: percent_not_space)
  from py_strip_keeps_last [OF s(1) this] s(2)
  have t: "py_strip s \<noteq> []" "last (py_strip s) = CHR ''%''" by simp_all
  then have pct: "ends_with_percent (py_strip s)" by (simp add: ends_with_percent_def)
  from percent_not_null_word [OF t] t(1) pct
  have "parse_number rt (CStr s) =
     (let body = py_strip (butlast (py_strip s));
          body = replace_char (CHR '','') (CHR ''.'')
                   (remove_char (CHR '' '') (remove_char (char_of (160::nat)) body))
      in case py_float rt body of
           None \<Rightarrow> (None, True)
         | Some face \<Rightarrow> (Some (div_100 rt face), True))"
    by (simp add: parse_number_def Let_def split: option.split)
  moreover from t have "py_strip s = butlast (py_strip s) @ ''%''"
    using append_butlast_last_id [of "py_strip s"] by simp
  ultimately show ?thesis by simp
qed

lemma percent_sample_body:
  "(let body = py_strip (butlast (py_strip ''12,5 %''));
        body = replace_char (CHR '','') (CHR ''.'')
                 (remove_char (CHR '' '') (remove_char (char_of (160::nat)) body))
    in case py_float sample_rt body of
         None \<Rightarrow> (None, True)
       | Some face \<Rightarrow> (Some (div_100 sample_rt face), True)) = (Some ''12.5/100'', True)"
  by code_simp

lemma percent_sample_hyp: "ends_with_percent ''12,5 %''"
  by code_simp

lemma percent_sample_reject: "parse_number sample_rt (CStr ''n/a %'') = (None, True)"
  by code_simp

theorem parse_number_percent_witness:
  "ends_with_percent ''12,5 %'' \<and>
   parse_number sample_rt (CStr ''12,5 %'') = (Some ''12.5/100'', True)"
proof -
  from parse_number_percent [OF percent_sample_hyp, of sample_rt]
  have "parse_number sample_rt (CStr ''12,5 %'') =
     (let body = py_strip (butlast (py_strip ''12,5 %''));
          body = replace_char (CHR '','') (CHR ''.'')
                   (remove_char (CHR '' '') (remove_char (char_of (160::nat)) body))
      in case py_float sample_rt body of
           None \<Rightarrow> (None, True)
         | Some face \<Rightarrow> (Some (div_100 sample_rt face), True))"
    by (rule conjunct1)
  then have "parse_number sample_rt (CStr ''12,5 %'') = (Some ''12.5/100'', True)"
    by (rule trans) (rule percent_sample_body)
  with percent_sample_hyp show ?thesis by (rule conjI)
qed

lemma sample_strip: "py_strip ''1.234,56'' = ''1.234,56''"
  by code_simp

lemma sample_lower: "py_lower ''1.234,56'' = ''1.234,56''"
  by code_simp

lemma sample_pct: "\<not> ends_with_percent ''1.234,56''"
  by code_simp

lemma sample_clean:
  "replace_char (CHR '','') (CHR ''.'')
     (remove_char (CHR '' '') (remove_char (char_of (160::nat)) ''1.234,56'')) = ''1.234.56''"
  by code_simp

lemma sample_clean_ndr:
  "replace_char (CHR '','') (CHR ''.'') (remove_char (CHR ''.'') ''1.234,56'') = ''1234.56''"
  by code_simp

lemma sample_fstrip:
  "float_strip ''1.234.56'' = ''1.234.56''" "float_strip ''1234.56'' = ''1234.56''"
  by code_simp+

lemma sample_syntax: "\<not> float_syntax ''1.234.56''" "float_syntax ''1234.56''"
  by code_simp+

text \<open>
  C4.  On the string \<^verbatim>\<open>1.234,56\<close> the two \<open>parse_number\<close> functions return different
  results: the backup script keeps the periods, turns the comma into a period and gets
  \<^verbatim>\<open>1.234.56\<close>, which \<^verbatim>\<open>float\<close> rejects, so the result is \<open>(None, False)\<close>; the other script
  removes the periods first and returns the float of \<^verbatim>\<open>1234.56\<close>.
\<close>

theorem parse_number_policies_differ:
  "parse_number rt (CStr ''1.234,56'') = (None, False) \<and>
   parse_number_ndr rt (CStr ''1.234,56'') = (Some (float_of_literal rt ''1234.56''), False) \<and>
   parse_number rt (CStr ''1.234,56'') \<noteq> parse_number_ndr rt (CStr ''1.234,56'')"
proof -
  have a: "parse_number rt (CStr ''1.234,56'') = (None, False)"
    by (simp add: parse_number_def py_float_def sample_strip sample_lower sample_pct
        sample_clean sample_fstrip sample_syntax)
  have b: "parse_number_ndr rt (CStr ''1.234,56'') =
      (Some (float_of_literal rt ''1234.56''), False)"
    by (simp add: parse_number_ndr_def py_float_def sample_strip sample_pct
        sample_clean_ndr sample_fstrip sample_syntax)
  from a b show ?thesis by simp
qed

section \<open>The label of a row\<close>

lemma iloc_in_range: "0 \<le> c \<Longrightarrow> c < int (length xs) \<Longrightarrow> iloc xs c = Inr (xs ! nat c)"
  by (simp add: iloc_def)

lemma label_loop_foldl:
  assumes "\<forall>c \<in> set cs. 0 \<le> c \<and> c < int (length row)"
  shows "label_loop row cs lab = Inr (foldl (label_step rt) lab (map (\<lambda>c. row ! nat c) cs))"
  using assms
proof (induction cs arbitrary: lab)
  case Nil
  then show ?case by simp
next
  case (Cons c cs)
  then have "iloc row c = Inr (row ! nat c)" by (simp add: iloc_in_range)
  with Cons show ?case
    by (cases "row ! nat c") (simp_all add: label_step_def is_label_cell_def)
qed

lemma upto_as_upt: "[0..n - 1] = map int [0..<nat n]"
proof (cases "0 \<le> n")
  case True
  then show ?thesis
  proof (induction "nat n" arbitrary: n)
    case 0
    then show ?case by simp
  next
    case (Suc k)
    then have *: "k = nat (n - 1)" "0 \<le> n - 1" by linarith+
    have "[0..n - 1] = [0..(n - 1) - 1] @ [n - 1]"
      using * by (simp add: upto_rec2)
    also have "[0..(n - 1) - 1] = map int [0..<nat (n - 1)]"
      using Suc(1) [OF *] .
    finally show ?case using Suc(2) * by (simp flip: Suc(2))
  qed
next
  case False
  then show ?thesis by simp
qed

lemma nths_take: "n \<le> length row \<Longrightarrow> map (\<lambda>c. row ! nat c) (map int [0..<n]) = take n row"
  by (simp add: list_eq_iff_nth_eq)

lemma foldl_label_step:
  "foldl (label_step rt) lab vs =
     (case rev (filter is_label_cell vs) of [] \<Rightarrow> lab | v # _ \<Rightarrow> Some (py_strip (py_str rt v)))"
  by (induction vs rule: rev_induct) (simp_all add: label_step_def)

lemma label_loop_rightmost:
  assumes "first_c \<le> int (length row)"
  shows "label_loop row [0..first_c - 1] None = Inr (rightmost_label rt first_c row)"
proof -
  have n: "nat first_c \<le> length row" using assms by simp
  have "\<forall>c \<in> set (map int [0..<nat first_c]). 0 \<le> c \<and> c < int (length row)"
    using assms by auto
  from label_loop_foldl [OF this, of None rt]
  show ?thesis
    by (simp only: upto_as_upt nths_take [OF n] foldl_label_step rightmost_label_def)
qed

text \<open>
  C7, as stated, fails: in the row \<^verbatim>\<open>["RESTAURANT", "COMIDA", 10]\<close> with the first date in
  column 2, the left-most non-empty cell is \<^verbatim>\<open>RESTAURANT\<close>, and the label the loop finds is
  \<^verbatim>\<open>COMIDA\<close>.
\<close>

theorem label_not_leftmost:
  "label_loop [CStr ''RESTAURANT'', CStr ''COMIDA'', CInt 10 :: string cell] [0..2 - 1] None
     = Inr (Some ''COMIDA'') \<and>
   leftmost_label sample_rt 2 [CStr ''RESTAURANT'', CStr ''COMIDA'', CInt 10]
     = Some ''RESTAURANT'' \<and>
   label_loop [CStr ''RESTAURANT'', CStr ''COMIDA'', CInt 10 :: string cell] [0..2 - 1] None
     \<noteq> Inr (leftmost_label sample_rt 2 [CStr ''RESTAURANT'', CStr ''COMIDA'', CInt 10])"
  by code_simp

text \<open>
  C7, amended.  For a row that has the columns to the left of the first date column, the
  label used for the classification is the text, stripped, of the right-most cell among
  those columns that is text and not blank (and there is no label when no such cell exists).
\<close>

theorem label_is_rightmost_text:
  assumes "first_c \<le> int (length row)"
  shows "label_loop row [0..first_c - 1] None = Inr (rightmost_label rt first_c row)"
  using assms by (rule label_loop_rightmost)

lemma label_sample_hyp:
  "(2::int) \<le> int (length [CStr ''RESTAURANT'', CStr ''COMIDA'', CInt 10 :: string cell])"
  by simp

lemma label_sample_value:
  "rightmost_label sample_rt 2 [CStr ''RESTAURANT'', CStr ''COMIDA'', CInt 10] = Some ''COMIDA''"
  by code_simp

theorem label_is_rightmost_text_witness:
  "(2::int) \<le> int (length [CStr ''RESTAURANT'', CStr ''COMIDA'', CInt 10 :: string cell]) \<and>
   label_loop [CStr ''RESTAURANT'', CStr ''COMIDA'', CInt 10 :: string cell] [0..2 - 1] None
     = Inr (Some ''COMIDA'')"
  using label_is_rightmost_text [OF label_sample_hyp, of sample_rt] label_sample_hyp
  by (simp only: label_sample_value simp_thms)

section \<open>The aggregation and the command line\<close>

text \<open>
  C8, as stated, fails: \<open>main\<close> of the backup script on a command line without files
  does not produce a table; \<^verbatim>\<open>argparse\<close> ends the run with a usage error, since \<^verbatim>\<open>files\<close> is
  declared with \<^verbatim>\<open>nargs="+"\<close>.
\<close>

theorem main_rejects_no_files:
  "main sample_rt (sample_io []) (sample_args []) = Inl UsageError"
  by (simp add: main_def sample_args_def)

text \<open>
  C8, amended.  The aggregation step of \<open>main\<close>, on an empty list of per-file tables,
  yields the empty table with the eight canonical columns and does not fail; the command
  line itself needs at least one file and \<open>main\<close> ends with a usage error without one.
\<close>

theorem aggregate_empty:
  "aggregate ([] :: 'f table list) = \<lparr>columns = COLS, rows = []\<rparr> \<and>
   main rt fs \<lparr>out = out_path, sheet = sheet_name, peek = pk, files = []\<rparr> = Inl UsageError"
  by (simp add: aggregate_def reindex_def empty_frame_def main_def)

section \<open>The unfinished \<^verbatim>\<open>normalize_file\<close> of \<^verbatim>\<open>normalize_daily_reports.py\<close>\<close>

lemma normalize_file_ndr_none: "normalize_file_ndr rt fs p sh = Inr x \<Longrightarrow> x = None"
  by (auto simp: normalize_file_ndr_def split: sum.splits prod.splits if_splits)

lemma frames_loop_ndr_none:
  "frames_loop_ndr rt fs sh ps acc = Inr frames \<Longrightarrow> \<forall>x \<in> set acc. x = None
     \<Longrightarrow> \<forall>x \<in> set frames. x = None"
proof (induction ps arbitrary: acc)
  case Nil
  then show ?case by simp
next
  case (Cons p ps)
  from Cons.prems(1) obtain x where x: "normalize_file_ndr rt fs p sh = Inr x"
    and rest: "frames_loop_ndr rt fs sh ps (acc @ [x]) = Inr frames"
    by (auto split: sum.splits)
  from x have "x = None" by (rule normalize_file_ndr_none)
  with Cons.prems(2) have "\<forall>y \<in> set (acc @ [x]). y = None" by simp
  from Cons.IH [OF rest this] show ?case .
qed

lemma pd_concat_all_none:
  assumes "\<forall>x \<in> set frames. x = None"
  shows "pd_concat frames \<noteq> Inr t"
proof -
  from assms have "concat (map (\<lambda>x. case x of None \<Rightarrow> [] | Some t \<Rightarrow> [t]) frames) = []"
    by (induction frames) auto
  then show ?thesis by (simp add: pd_concat_def)
qed

lemma main_ndr_never: "main_ndr rt fs a \<noteq> Inr t"
proof
  assume m: "main_ndr rt fs a = Inr t"
  then obtain frames master
    where f: "frames_loop_ndr rt fs (sheet a) (files a) [] = Inr frames"
      and c: "pd_concat frames = Inr master"
    by (auto simp: main_ndr_def split: if_splits sum.splits)
  from frames_loop_ndr_none [OF f] have "\<forall>x \<in> set frames. x = None" by simp
  from pd_concat_all_none [OF this] c show False by blast
qed

text \<open>
  C10.  When the file is read and a header row is found, \<open>normalize_file\<close> of
  \<^verbatim>\<open>normalize_daily_reports.py\<close> returns \<^verbatim>\<open>None\<close>; and \<open>main\<close> of that script never returns a
  table, whatever the command line: it ends with an error (of the command line, of a
  file, or of \<^verbatim>\<open>pd.concat\<close> on a list of \<^verbatim>\<open>None\<close>).
\<close>

theorem normalize_file_ndr_returns_none:
  assumes "load fs p sheet_name = Inr df"
    and "0 \<le> fst (find_date_header_row_ndr rt df)"
  shows "normalize_file_ndr rt fs p sheet_name = Inr None \<and>
         (\<forall>a t. main_ndr rt fs a \<noteq> Inr t)"
  using assms by (auto simp: normalize_file_ndr_def main_ndr_never split: prod.splits)

lemma ndr_sample_load:
  "load (sample_io sample_grid_ndr) sample_csv ''Daily'' = Inr sample_grid_ndr"
  by code_simp

lemma ndr_sample_header: "find_date_header_row_ndr sample_rt sample_grid_ndr = (1, 1, 5, 6)"
  by code_simp

theorem normalize_file_ndr_returns_none_witness:
  "load (sample_io sample_grid_ndr) sample_csv ''Daily'' = Inr sample_grid_ndr \<and>
   0 \<le> fst (find_date_header_row_ndr sample_rt sample_grid_ndr) \<and>
   normalize_file_ndr sample_rt (sample_io sample_grid_ndr) sample_csv ''Daily'' = Inr None"
proof -
  have h: "0 \<le> fst (find_date_header_row_ndr sample_rt sample_grid_ndr)"
    by (simp add: ndr_sample_header)
  from normalize_file_ndr_returns_none [OF ndr_sample_load h]
  have "normalize_file_ndr sample_rt (sample_io sample_grid_ndr) sample_csv ''Daily'' = Inr None"
    by (rule conjunct1)
  with ndr_sample_load h show ?thesis by simp
qed

section \<open>The header locator\<close>

lemma date_columns_filter:
  "date_columns idl row = set (filter (\<lambda>c. idl (row ! c)) [0..<length row])"
  by (auto simp: date_columns_def)

lemma card_date_columns:
  "card (date_columns idl row) = length (filter (\<lambda>c. idl (row ! c)) [0..<length row])"
  unfolding date_columns_filter by (rule distinct_card) simp

lemma py_min_Min: "xs \<noteq> [] \<Longrightarrow> py_min xs = Min (set xs)"
proof (cases xs)
  case Nil
  assume "xs \<noteq> []"
  with Nil show ?thesis by simp
next
  case (Cons a l)
  have "Min (set (a # l)) = fold min l a" by (rule Min.set_eq_fold)
  with Cons show ?thesis by (simp only: py_min_def list.sel)
qed

lemma py_max_Max: "xs \<noteq> [] \<Longrightarrow> py_max xs = Max (set xs)"
proof (cases xs)
  case Nil
  assume "xs \<noteq> []"
  with Nil show ?thesis by simp
next
  case (Cons a l)
  have "Max (set (a # l)) = fold max l a" by (rule Max.set_eq_fold)
  with Cons show ?thesis by (simp only: py_max_def list.sel)
qed

lemma total_scan_filter:
  "total_scan is_tot row cs =
     (case filter (\<lambda>c. tot_cell is_tot (row ! c)) cs of [] \<Rightarrow> - 1 | c # _ \<Rightarrow> int c)"
  by (induction cs) (auto simp: tot_cell_def split: cell.splits)

lemma sorted_hd_Min: "sorted xs \<Longrightarrow> xs \<noteq> [] \<Longrightarrow> hd xs = Min (set xs)"
  by (cases xs) (auto intro!: Min_eqI [symmetric])

lemma first_of_filter_upt:
  "(case filter P [a..<b] of [] \<Rightarrow> - 1 | c # _ \<Rightarrow> int c) =
     (if set (filter P [a..<b]) = {} then - 1 else int (Min (set (filter P [a..<b]))))"
proof (cases "filter P [a..<b]")
  case Nil
  then show ?thesis by simp
next
  case (Cons c cs)
  have "sorted (filter P [a..<b])" by (simp add: sorted_wrt_filter)
  from sorted_hd_Min [OF this] Cons show ?thesis by simp
qed

lemma header_scan_skip:
  assumes "\<forall>row \<in> set pre. length (filter (\<lambda>c. idl (row ! c)) [0..<length row]) < thr"
  shows "header_scan thr idl is_tot r0 (pre @ rest) = header_scan thr idl is_tot (r0 + length pre) rest"
  using assms by (induction pre arbitrary: r0) (simp_all add: Let_def)

lemma header_scan_hit:
  assumes "thr \<le> length (filter (\<lambda>c. idl (row ! c)) [0..<length row])" and "0 < thr"
  shows "header_scan thr idl is_tot r (row # rest) =
     (int r, int (Min (date_columns idl row)), int (Max (date_columns idl row)),
      if {c \<in> {0..<length row}. Max (date_columns idl row) < c \<and> tot_cell is_tot (row ! c)} = {}
      then - 1
      else int (Min {c \<in> {0..<length row}. Max (date_columns idl row) < c \<and> tot_cell is_tot (row ! c)}))"
proof -
  let ?dc = "filter (\<lambda>c. idl (row ! c)) [0..<length row]"
  from assms have ne: "?dc \<noteq> []" by auto
  have mx: "py_max ?dc = Max (date_columns idl row)" and mn: "py_min ?dc = Min (date_columns idl row)"
    by (simp_all only: py_max_Max [OF ne] py_min_Min [OF ne] date_columns_filter)
  have T: "set (filter (\<lambda>c. tot_cell is_tot (row ! c)) [Max (date_columns idl row) + 1..<length row])
     = {c \<in> {0..<length row}. Max (date_columns idl row) < c \<and> tot_cell is_tot (row ! c)}"
    by auto
  have "header_scan thr idl is_tot r (row # rest) =
      (int r, int (py_min ?dc), int (py_max ?dc),
       total_scan is_tot row [py_max ?dc + 1..<length row])"
    using assms(1) by (simp add: Let_def)
  then show ?thesis
    by (simp only: mx mn total_scan_filter first_of_filter_upt T)
qed

lemma header_scan_first:
  assumes "r < length df" "0 < thr" "qualifies thr idl (df ! r)"
    and "\<forall>row \<in> set (take r df). \<not> qualifies thr idl row"
  shows "header_scan thr idl is_tot 0 df =
     (int r, int (Min (date_columns idl (df ! r))), int (Max (date_columns idl (df ! r))),
      if {c \<in> {0..<length (df ! r)}. Max (date_columns idl (df ! r)) < c \<and> tot_cell is_tot (df ! r ! c)} = {}
      then - 1
      else int (Min {c \<in> {0..<length (df ! r)}. Max (date_columns idl (df ! r)) < c \<and> tot_cell is_tot (df ! r ! c)}))"
proof -
  have split: "df = take r df @ (df ! r) # drop (Suc r) df"
    using assms(1) by (simp add: id_take_nth_drop)
  have pre: "\<forall>row \<in> set (take r df). length (filter (\<lambda>c. idl (row ! c)) [0..<length row]) < thr"
    using assms(4) by (auto simp: qualifies_def card_date_columns)
  have hit: "thr \<le> length (filter (\<lambda>c. idl (df ! r ! c)) [0..<length (df ! r)])"
    using assms(3) by (simp add: qualifies_def card_date_columns)
  have "header_scan thr idl is_tot 0 df =
      header_scan thr idl is_tot 0 (take r df @ (df ! r) # drop (Suc r) df)"
    using split by simp
  also have "\<dots> = header_scan thr idl is_tot (0 + length (take r df)) ((df ! r) # drop (Suc r) df)"
    using pre by (rule header_scan_skip)
  also have "0 + length (take r df) = r" using assms(1) by simp
  finally show ?thesis using header_scan_hit [OF hit assms(2), of is_tot r "drop (Suc r) df"] by simp
qed

lemma upper_char_space: "upper_char c = CHR '' '' \<Longrightarrow> c = CHR '' ''"
proof -
  assume a: "upper_char c = CHR '' ''"
  show ?thesis
  proof (cases "(97 \<le> code c \<and> code c \<le> 122) \<or> (224 \<le> code c \<and> code c \<le> 254 \<and> code c \<noteq> 247)")
    case True
    with a have "char_of (code c - 32) = CHR '' ''" by (simp add: upper_char_def Let_def)
    then have "of_char (char_of (code c - 32) :: char) = (of_char (CHR '' '') :: nat)" by simp
    then have "(code c - 32) mod 256 = 32" by simp
    with True show ?thesis by auto
  next
    case False
    with a show ?thesis by (simp add: upper_char_def Let_def)
  qed
qed

lemma space_is_space: "is_space (CHR '' '')" by code_simp

lemma py_strip_last_not_space: "py_strip s \<noteq> [] \<Longrightarrow> \<not> is_space (last (py_strip s))"
proof -
  assume "py_strip s \<noteq> []"
  then have ne: "dropWhile is_space (rev (dropWhile is_space s)) \<noteq> []" by (simp add: py_strip_def)
  have "last (py_strip s) = hd (dropWhile is_space (rev (dropWhile is_space s)))"
    using ne by (simp add: py_strip_def last_rev)
  with hd_dropWhile [OF ne] show ?thesis by simp
qed

lemma upper_strip_no_trailing_blank: "py_upper (py_strip t) \<noteq> ''TOTAL ''"
proof
  assume a: "py_upper (py_strip t) = ''TOTAL ''"
  then have ne: "py_strip t \<noteq> []" by (auto simp: py_upper_def)
  from a have "last (py_upper (py_strip t)) = CHR '' ''" by simp
  then have "upper_char (last (py_strip t)) = CHR '' ''" using ne by (simp add: py_upper_def last_map)
  then have "last (py_strip t) = CHR '' ''" by (rule upper_char_space)
  with py_strip_last_not_space [OF ne] space_is_space show False by simp
qed

lemma tot_cell_backup: "tot_cell (\<lambda>u. u = ''TOTAL'' \<or> u = ''TOTAL '') v = is_total_cell v"
  by (cases v) (simp_all add: tot_cell_def is_total_cell_def upper_strip_no_trailing_blank)

lemma tot_cell_ndr: "tot_cell (\<lambda>u. u = ''TOTAL'') v = is_total_cell v"
  by (cases v) (simp_all add: tot_cell_def is_total_cell_def)

text \<open>
  C1.  In both scripts, when the row \<open>r\<close> of the grid is the first row, from the top, whose
  number of date-like cells reaches the threshold (3 in the backup script, 5 in the other),
  \<^verbatim>\<open>find_date_header_row\<close> returns \<open>r\<close>, the least and the greatest column index among the
  date-like cells of that row, and the index of the first cell strictly to the right of the
  greatest date column that is text reading \<^verbatim>\<open>TOTAL\<close> once stripped and upper-cased, or
  \<open>-1\<close> when there is no such cell.
\<close>

theorem header_locator:
  assumes "r < length df"
  shows "(qualifies 3 (is_date_like rt) (df ! r) \<and>
          (\<forall>row \<in> set (take r df). \<not> qualifies 3 (is_date_like rt) row)
            \<longrightarrow> find_date_header_row rt df = header_of (is_date_like rt) df r) \<and>
         (qualifies 5 (is_date_like_ndr rt) (df ! r) \<and>
          (\<forall>row \<in> set (take r df). \<not> qualifies 5 (is_date_like_ndr rt) row)
            \<longrightarrow> find_date_header_row_ndr rt df = header_of (is_date_like_ndr rt) df r)"
proof (intro conjI impI; elim conjE)
  assume q: "qualifies 3 (is_date_like rt) (df ! r)"
    and p: "\<forall>row \<in> set (take r df). \<not> qualifies 3 (is_date_like rt) row"
  from header_scan_first [OF assms _ q p, of "\<lambda>u. u = ''TOTAL'' \<or> u = ''TOTAL ''"]
  show "find_date_header_row rt df = header_of (is_date_like rt) df r"
    by (simp add: find_date_header_row_def header_of_def total_columns_def tot_cell_backup Let_def)
next
  assume q: "qualifies 5 (is_date_like_ndr rt) (df ! r)"
    and p: "\<forall>row \<in> set (take r df). \<not> qualifies 5 (is_date_like_ndr rt) row"
  from header_scan_first [OF assms _ q p, of "\<lambda>u. u = ''TOTAL''"]
  show "find_date_header_row_ndr rt df = header_of (is_date_like_ndr rt) df r"
    by (simp add: find_date_header_row_ndr_def header_of_def total_columns_def tot_cell_ndr Let_def)
qed

lemma header_sample_len: "1 < length sample_grid" by code_simp
lemma header_sample_row: "qualifies 3 (is_date_like sample_rt) (sample_grid ! 1)" by code_simp
lemma header_sample_above: "\<forall>row \<in> set (take 1 sample_grid). \<not> qualifies 3 (is_date_like sample_rt) row" by code_simp
lemma header_sample_value: "header_of (is_date_like sample_rt) sample_grid 1 = (1, 1, 3, 4)" by code_simp
lemma header_ndr_len: "1 < length sample_grid_ndr" by code_simp
lemma header_ndr_row: "qualifies 5 (is_date_like_ndr sample_rt) (sample_grid_ndr ! 1)" by code_simp
lemma header_ndr_above: "\<forall>row \<in> set (take 1 sample_grid_ndr). \<not> qualifies 5 (is_date_like_ndr sample_rt) row" by code_simp
lemma header_ndr_value: "header_of (is_date_like_ndr sample_rt) sample_grid_ndr 1 = (1, 1, 5, 6)" by code_simp

theorem header_locator_witness:
  "1 < length sample_grid \<and>
   qualifies 3 (is_date_like sample_rt) (sample_grid ! 1) \<and>
   list_all (\<lambda>row. \<not> qualifies 3 (is_date_like sample_rt) row) (take 1 sample_grid) \<and>
   find_date_header_row sample_rt sample_grid = (1, 1, 3, 4) \<and>
   1 < length sample_grid_ndr \<and>
   qualifies 5 (is_date_like_ndr sample_rt) (sample_grid_ndr ! 1) \<and>
   list_all (\<lambda>row. \<not> qualifies 5 (is_date_like_ndr sample_rt) row)
     (take 1 sample_grid_ndr) \<and>
   find_date_header_row_ndr sample_rt sample_grid_ndr = (1, 1, 5, 6)"
proof -
  from header_locator [OF header_sample_len, of sample_rt] header_sample_row header_sample_above
  have a: "find_date_header_row sample_rt sample_grid = (1, 1, 3, 4)"
    by (simp only: header_sample_value simp_thms)
  from header_locator [OF header_ndr_len, of sample_rt] header_ndr_row header_ndr_above
  have b: "find_date_header_row_ndr sample_rt sample_grid_ndr = (1, 1, 5, 6)"
    by (simp only: header_ndr_value simp_thms)
  from a b header_sample_len header_sample_row header_sample_above
    header_ndr_len header_ndr_row header_ndr_above
  show ?thesis by (simp only: list_all_iff simp_thms)
qed

section \<open>The rows below the header\<close>

lemma daily_loop_char:
  assumes "list_all (\<lambda>cd. 0 \<le> fst cd \<and> fst cd < int (length row)) items"
  shows "daily_loop rt fname sec metric row items recs =
           Inr (recs @ daily_records rt fname sec metric row items)"
  using assms
proof (induction items arbitrary: recs)
  case Nil
  then show ?case by (simp add: daily_records_def)
next
  case (Cons cd items)
  then have v: "iloc row (fst cd) = Inr (row ! nat (fst cd))" by (simp add: iloc_in_range)
  from Cons have rest: "list_all (\<lambda>cd. 0 \<le> fst cd \<and> fst cd < int (length row)) items" by simp
  show ?case
  proof (cases "emits rt (row ! nat (fst cd))")
    case True
    then show ?thesis
      using v Cons.IH [OF rest]
      by (simp add: emits_def nonempty_cell_def daily_records_def daily_record_def Let_def)
  next
    case False
    then show ?thesis
      using v Cons.IH [OF rest]
      by (auto simp: emits_def nonempty_cell_def daily_records_def Let_def)
  qed
qed

lemma total_step_char:
  assumes "- 1 \<le> total_c"
  shows "total_step rt fname sec metric row total_c recs =
           Inr (recs @ total_records rt fname sec metric row total_c)"
proof (cases "0 \<le> total_c \<and> total_c < int (length row)")
  case True
  then have "iloc row total_c = Inr (row ! nat total_c)" by (simp add: iloc_in_range)
  with True show ?thesis
    by (simp add: total_step_def total_records_def total_record_def nonempty_cell_def Let_def)
next
  case False
  with assms have "total_c = - 1 \<or> \<not> total_c < int (length row)" by linarith
  with False show ?thesis
    by (auto simp: total_step_def total_records_def)
qed

lemma row_step_char:
  assumes "row_ok first_c total_c col2date row"
  shows "row_step rt fname first_c total_c col2date (sec, recs) row =
     Inr (section_update (rightmost_label rt first_c row) sec,
          recs @ row_records rt fname first_c total_c col2date
                   (section_update (rightmost_label rt first_c row) sec) row)"
proof -
  from assms have a: "first_c \<le> int (length row)" and b: "- 1 \<le> total_c"
    and c: "list_all (\<lambda>cd. 0 \<le> fst cd \<and> fst cd < int (length row)) col2date"
    by (simp_all add: row_ok_def)
  show ?thesis
    by (simp add: row_step_def label_loop_rightmost [OF a, of rt] daily_loop_char [OF c]
        total_step_char [OF b] row_records_def Let_def)
qed

lemma rightmost_label_nonempty: "rightmost_label rt first_c row = Some l \<Longrightarrow> l \<noteq> []"
proof -
  assume a: "rightmost_label rt first_c row = Some l"
  then obtain v vs where r: "rev (filter is_label_cell (take (nat first_c) row)) = v # vs"
    and l: "l = py_strip (py_str rt v)"
    by (auto simp: rightmost_label_def split: list.splits)
  from r have "v \<in> set (filter is_label_cell (take (nat first_c) row))"
    by (metis list.set_intros(1) set_rev)
  then have "is_label_cell v" by simp
  with l show ?thesis by (cases v) (simp_all add: is_label_cell_def)
qed

lemma section_update_title:
  "section_update (rightmost_label rt first_c row) sec =
     (case section_title rt first_c row of None \<Rightarrow> sec | Some canon \<Rightarrow> Some canon)"
proof (cases "rightmost_label rt first_c row")
  case None
  then show ?thesis by (simp add: section_update_def section_title_def)
next
  case (Some l)
  from rightmost_label_nonempty [OF Some] Some show ?thesis
    by (simp add: section_update_def section_title_def split: option.splits)
qed

lemma section_in_force_Nil: "section_in_force rt first_c sec0 [] = sec0"
  by (simp add: section_in_force_def)

lemma section_in_force_Cons:
  "section_in_force rt first_c sec0 (row # rws) =
     section_in_force rt first_c (section_update (rightmost_label rt first_c row) sec0) rws"
  by (auto simp: section_in_force_def section_update_title Let_def split: option.splits)

lemma concat_map_upt_Suc:
  "concat (map g [0..<Suc n]) = g 0 @ concat (map (\<lambda>i. g (Suc i)) [0..<n])"
proof -
  have "[0..<Suc n] = 0 # map Suc [0..<n]" by (simp add: upt_conv_Cons map_Suc_upt del: upt_Suc)
  then show ?thesis by (simp add: o_def del: upt_Suc)
qed

lemma rows_loop_char:
  assumes "list_all (row_ok first_c total_c col2date) rws"
  shows "rows_loop rt fname first_c total_c col2date rws (sec0, recs) =
     Inr (section_in_force rt first_c sec0 rws,
          recs @ concat (map (\<lambda>i. row_records rt fname first_c total_c col2date
                                   (section_in_force rt first_c sec0 (take (Suc i) rws)) (rws ! i))
                          [0..<length rws]))"
  using assms
proof (induction rws arbitrary: sec0 recs)
  case Nil
  then show ?case by (simp add: section_in_force_Nil)
next
  case (Cons row rws)
  let ?s1 = "section_update (rightmost_label rt first_c row) sec0"
  from Cons.prems have ok: "row_ok first_c total_c col2date row"
    and rest: "list_all (row_ok first_c total_c col2date) rws" by simp_all
  have "rows_loop rt fname first_c total_c col2date (row # rws) (sec0, recs) =
      rows_loop rt fname first_c total_c col2date rws
        (?s1, recs @ row_records rt fname first_c total_c col2date ?s1 row)"
    by (simp add: row_step_char [OF ok])
  also note Cons.IH [OF rest]
  finally show ?case
    by (simp add: concat_map_upt_Suc section_in_force_Cons section_in_force_Nil del: upt_Suc)
qed

lemma dict_set_fresh: "k \<notin> fst ` set m \<Longrightarrow> dict_set k v m = m @ [(k, v)]"
  by (induction m) auto

lemma col2date_loop_char:
  assumes "hdr < int (length df)" "0 \<le> hdr"
    and "\<forall>c \<in> set cs. 0 \<le> c \<and> c < int (length (df ! nat hdr))"
    and "distinct cs" "set cs \<inter> fst ` set acc = {}"
  shows "col2date_loop rt df hdr cs acc =
     Inr (acc @ List.map_filter
        (\<lambda>c. map_option (\<lambda>d. (c, ts_normalize d)) (parse_date rt (df ! nat hdr ! nat c))) cs)"
  using assms(3-5)
proof (induction cs arbitrary: acc)
  case Nil
  then show ?case by (simp add: map_filter_simps)
next
  case (Cons c cs)
  from Cons.prems(1) assms(1,2) have v: "iat df hdr c = Inr (df ! nat hdr ! nat c)"
    by (simp add: iat_def iloc_in_range)
  from Cons.prems have fresh: "c \<notin> fst ` set acc" by auto
  from Cons.prems have r1: "\<forall>c \<in> set cs. 0 \<le> c \<and> c < int (length (df ! nat hdr))"
    and r2: "distinct cs" by simp_all
  show ?case
  proof (cases "parse_date rt (df ! nat hdr ! nat c)")
    case None
    from Cons.prems have "set cs \<inter> fst ` set acc = {}" by auto
    from Cons.IH [OF r1 r2 this] None v show ?thesis by (simp add: map_filter_simps)
  next
    case (Some d)
    from Cons.prems have "set cs \<inter> fst ` set (acc @ [(c, ts_normalize d)]) = {}" by auto
    from Cons.IH [OF r1 r2 this] Some v fresh show ?thesis
      by (simp add: map_filter_simps dict_set_fresh)
  qed
qed

lemma total_scan_ge: "- 1 \<le> total_scan is_tot row cs"
  by (induction cs) (auto split: cell.splits)

lemma header_scan_wf:
  assumes "header_scan thr idl is_tot r0 rws = (hdr, first_c, last_c, total_c)"
    and "0 \<le> hdr" "0 < thr"
  shows "int r0 \<le> hdr \<and> hdr < int r0 + int (length rws) \<and>
         0 \<le> first_c \<and> first_c \<le> last_c \<and>
         last_c < int (length (rws ! (nat hdr - r0))) \<and> - 1 \<le> total_c"
  using assms(1)
proof (induction rws arbitrary: r0)
  case Nil
  with assms(2) show ?case by simp
next
  case (Cons row rws)
  let ?dc = "filter (\<lambda>c. idl (row ! c)) [0..<length row]"
  show ?case
  proof (cases "thr \<le> length ?dc")
    case True
    with assms(3) have ne: "?dc \<noteq> []" by auto
    from True Cons.prems have res: "hdr = int r0" "first_c = int (py_min ?dc)"
      "last_c = int (py_max ?dc)" "total_c = total_scan is_tot row [py_max ?dc + 1..<length row]"
      by (simp_all add: Let_def)
    have fin: "finite (set ?dc)" by simp
    have ne': "set ?dc \<noteq> {}" using ne unfolding set_empty .
    have in_dc: "Max (set ?dc) \<in> set ?dc" using fin ne' by (rule Max_in)
    then have mx: "Max (set ?dc) < length row" by simp
    have "Min (set ?dc) \<le> Max (set ?dc)" using fin in_dc by (rule Min_le)
    with mx res show ?thesis
      by (simp add: py_min_Min [OF ne] py_max_Max [OF ne] total_scan_ge del: set_filter)
  next
    case False
    with Cons.prems have "header_scan thr idl is_tot (Suc r0) rws = (hdr, first_c, last_c, total_c)"
      by (simp add: Let_def)
    from Cons.IH [OF this] have ih: "int (Suc r0) \<le> hdr" "hdr < int (Suc r0) + int (length rws)"
      "0 \<le> first_c" "first_c \<le> last_c" "last_c < int (length (rws ! (nat hdr - Suc r0)))"
      "- 1 \<le> total_c" by simp_all
    from ih(1) have "nat hdr - r0 = Suc (nat hdr - Suc r0)" by linarith
    with ih show ?thesis by simp
  qed
qed

lemma col2date_of_keys:
  assumes "cd \<in> set (col2date_of rt df hdr first_c last_c)"
  shows "first_c \<le> fst cd \<and> fst cd \<le> last_c \<and>
         (\<exists>d. parse_date rt (df ! nat hdr ! nat (fst cd)) = Some d \<and> snd cd = ts_normalize d)"
  using assms by (auto simp: col2date_of_def List.map_filter_def)

lemma normalize_records_char:
  assumes "rectangular df"
    and "find_date_header_row rt df = (hdr, first_c, last_c, total_c)"
    and "0 \<le> hdr"
  shows "normalize_records rt fname df =
     Inr (concat (map (\<lambda>i. row_records rt fname first_c total_c
                             (col2date_of rt df hdr first_c last_c)
                             (section_in_force rt first_c None
                                (take (Suc i) (drop (nat (hdr + 1)) df)))
                             (drop (nat (hdr + 1)) df ! i))
                    [0..<length (drop (nat (hdr + 1)) df)]))"
proof -
  let ?c2d = "col2date_of rt df hdr first_c last_c"
  let ?below = "drop (nat (hdr + 1)) df"
  from assms(2) have "header_scan 3 (is_date_like rt) (\<lambda>u. u = ''TOTAL'' \<or> u = ''TOTAL '') 0 df
      = (hdr, first_c, last_c, total_c)"
    by (simp add: find_date_header_row_def)
  from header_scan_wf [OF this assms(3)]
  have wf: "hdr < int (length df)" "0 \<le> first_c" "first_c \<le> last_c"
    "last_c < int (length (df ! nat hdr))" "- 1 \<le> total_c"
    by simp_all
  have hdr_in: "df ! nat hdr \<in> set df" using wf(1) assms(3) by simp
  have cols: "\<forall>c \<in> set [first_c..last_c]. 0 \<le> c \<and> c < int (length (df ! nat hdr))"
    using wf by auto
  have c2d: "col2date_loop rt df hdr [first_c..last_c] [] = Inr ?c2d"
  proof -
    have "distinct [first_c..last_c]" "set [first_c..last_c] \<inter> fst ` set [] = {}" by simp_all
    from col2date_loop_char [OF wf(1) assms(3) cols this, of rt]
    show ?thesis by (simp only: col2date_of_def append_Nil)
  qed
  have "list_all (row_ok first_c total_c ?c2d) ?below"
    unfolding list_all_iff
  proof
    fix row assume "row \<in> set ?below"
    then have "row \<in> set df" by (rule in_set_dropD)
    with assms(1) hdr_in have len: "length row = length (df ! nat hdr)"
      unfolding rectangular_def by blast
    have "\<forall>cd \<in> set ?c2d. 0 \<le> fst cd \<and> fst cd < int (length row)"
    proof
      fix cd assume "cd \<in> set ?c2d"
      from col2date_of_keys [OF this] wf len
      show "0 \<le> fst cd \<and> fst cd < int (length row)" by linarith
    qed
    with wf len show "row_ok first_c total_c ?c2d row"
      by (simp add: row_ok_def list_all_iff)
  qed
  from rows_loop_char [OF this, of rt fname None "[]"]
  have loop: "rows_loop rt fname first_c total_c ?c2d ?below (None, []) =
      Inr (section_in_force rt first_c None ?below,
           concat (map (\<lambda>i. row_records rt fname first_c total_c ?c2d
                                  (section_in_force rt first_c None (take (Suc i) ?below))
                                  (?below ! i))
                     [0..<length ?below]))"
    by (simp only: append_Nil)
  have "\<not> hdr < 0" using assms(3) by simp
  then show ?thesis
    unfolding normalize_records_def assms(2)
    by (simp only: prod.case if_False c2d sum.case loop snd_conv)
qed

lemma daily_records_props:
  "list_all (\<lambda>x. \<not> is_total x \<and> section_name x = sec \<and> metric_label x = metric)
     (daily_records rt fname sec metric row col2date) \<and>
   map date (daily_records rt fname sec metric row col2date) =
     map (\<lambda>cd. Some (snd cd)) (filter (\<lambda>cd. emits rt (row ! nat (fst cd))) col2date)"
  by (simp add: daily_records_def daily_record_def list_all_iff Let_def)

lemma total_records_props:
  "length (total_records rt fname sec metric row total_c) \<le> 1 \<and>
   list_all (\<lambda>t. date t = None \<and> is_total t \<and> section_name t = sec \<and> metric_label t = metric)
     (total_records rt fname sec metric row total_c)"
  by (simp add: total_records_def total_record_def Let_def)

lemma sample_row_ok: "row_ok 1 4 sample_col2date (sample_grid ! 4)"
  by code_simp

lemma sample_row_total: "(0::int) \<le> 4" "(4::int) < int (length (sample_grid ! 4))"
  "nonempty_cell sample_rt (sample_grid ! 4 ! nat 4)"
  by code_simp+

lemma sample_row_value:
  "row_step sample_rt ''jan.csv'' 1 4 sample_col2date (Some ''RESTAURANT'', []) (sample_grid ! 4) =
     Inr (Some ''RESTAURANT'',
       [\<lparr>source_file = ''jan.csv'', section_name = Some ''RESTAURANT'', metric_label = Some ''BEBIDA'',
         date = Some (sample_day 1), value_raw = ''5'', value_num = Some ''5'',
         is_percent = False, is_total = False\<rparr>,
        \<lparr>source_file = ''jan.csv'', section_name = Some ''RESTAURANT'', metric_label = Some ''BEBIDA'',
         date = Some (sample_day 2), value_raw = ''8%'', value_num = Some ''8/100'',
         is_percent = True, is_total = False\<rparr>,
        \<lparr>source_file = ''jan.csv'', section_name = Some ''RESTAURANT'', metric_label = Some ''BEBIDA'',
         date = None, value_raw = ''13'', value_num = Some ''13'',
         is_percent = False, is_total = True\<rparr>])"
  by code_simp

text \<open>
  C2, as stated, fails: a cell of a mapped date column that holds a date is not empty, and
  the row gives no record for it.  Here the row \<^verbatim>\<open>["COMIDA", Timestamp(2025-01-01)]\<close> with
  column 1 mapped to a date gives no record at all.
\<close>

theorem date_cell_emits_no_record:
  "nonempty_cell sample_rt ([CStr ''COMIDA'', CDate (sample_day 1)] ! 1) \<and>
   row_step sample_rt ''jan.csv'' 1 (- 1) [(1, sample_day 1)] (None, [])
     [CStr ''COMIDA'', CDate (sample_day 1)] = Inr (None, [])"
  by code_simp

text \<open>
  C2, amended.  Processing a row below the header appends exactly one record per entry of
  the column-to-date map whose cell in that row holds a value (not \<^verbatim>\<open>None\<close>, not NaN, not
  blank) that is not itself date-like, with the date of that column and \<open>is_total = False\<close>,
  and after them at most one record for the totals column, which has \<open>date = None\<close> and
  \<open>is_total = True\<close>.
\<close>

theorem row_emits_one_record_per_value:
  assumes "row_ok first_c total_c col2date row"
  shows "\<exists>sec' daily total.
     row_step rt fname first_c total_c col2date (sec, recs) row = Inr (sec', recs @ daily @ total) \<and>
     map date daily =
       map (\<lambda>cd. Some (snd cd))
         (filter (\<lambda>cd. nonempty_cell rt (row ! nat (fst cd)) \<and>
                        \<not> is_date_like rt (row ! nat (fst cd))) col2date) \<and>
     list_all (\<lambda>x. \<not> is_total x) daily \<and>
     length total \<le> 1 \<and>
     list_all (\<lambda>t. date t = None \<and> is_total t) total"
proof -
  let ?s = "section_update (rightmost_label rt first_c row) sec"
  let ?m = "metric_of (rightmost_label rt first_c row)"
  let ?daily = "daily_records rt fname ?s ?m row col2date"
  let ?total = "total_records rt fname ?s ?m row total_c"
  have "row_step rt fname first_c total_c col2date (sec, recs) row = Inr (?s, recs @ ?daily @ ?total)"
    by (simp add: row_step_char [OF assms] row_records_def Let_def)
  moreover have "map date ?daily =
       map (\<lambda>cd. Some (snd cd))
         (filter (\<lambda>cd. nonempty_cell rt (row ! nat (fst cd)) \<and>
                        \<not> is_date_like rt (row ! nat (fst cd))) col2date)"
    using daily_records_props [of ?s ?m rt fname row col2date] by (simp add: emits_def)
  moreover have "list_all (\<lambda>x. \<not> is_total x) ?daily"
    using daily_records_props [of ?s ?m rt fname row col2date] by (simp add: list_all_iff)
  moreover have "length ?total \<le> 1" "list_all (\<lambda>t. date t = None \<and> is_total t) ?total"
    using total_records_props [of rt fname ?s ?m row total_c] by (simp_all add: list_all_iff)
  ultimately show ?thesis by blast
qed

theorem row_emits_one_record_per_value_witness:
  "row_ok 1 4 sample_col2date (sample_grid ! 4) \<and>
   (\<exists>sec' daily total.
     row_step sample_rt ''jan.csv'' 1 4 sample_col2date (Some ''RESTAURANT'', []) (sample_grid ! 4)
       = Inr (sec', [] @ daily @ total) \<and>
     map date daily =
       map (\<lambda>cd. Some (snd cd))
         (filter (\<lambda>cd. nonempty_cell sample_rt (sample_grid ! 4 ! nat (fst cd)) \<and>
                        \<not> is_date_like sample_rt (sample_grid ! 4 ! nat (fst cd))) sample_col2date) \<and>
     list_all (\<lambda>x. \<not> is_total x) daily \<and>
     length total \<le> 1 \<and>
     list_all (\<lambda>t. date t = None \<and> is_total t) total)"
  using sample_row_ok row_emits_one_record_per_value [OF sample_row_ok, of sample_rt "''jan.csv''" "Some ''RESTAURANT''" "[]"]
  by (rule conjI)

text \<open>
  C6.  When a totals column was located and the cell of the row in that column holds a
  value, processing the row appends, after the daily records and however many of them
  there are, exactly one record with \<open>date = None\<close> and \<open>is_total = True\<close>; it carries the
  section and the metric label of the daily records of the row, and the stripped text of
  the totals cell.
\<close>

theorem total_record_emitted:
  assumes "row_ok first_c total_c col2date row"
    and "0 \<le> total_c" "total_c < int (length row)"
    and "nonempty_cell rt (row ! nat total_c)"
  shows "\<exists>sec' daily t.
     row_step rt fname first_c total_c col2date (sec, recs) row = Inr (sec', recs @ daily @ [t]) \<and>
     list_all (\<lambda>x. \<not> is_total x \<and> section_name x = section_name t \<and>
                    metric_label x = metric_label t) daily \<and>
     length daily = length (filter (\<lambda>cd. emits rt (row ! nat (fst cd))) col2date) \<and>
     date t = None \<and> is_total t \<and> section_name t = sec' \<and>
     metric_label t = metric_of (rightmost_label rt first_c row) \<and>
     value_raw t = py_strip (py_str rt (row ! nat total_c))"
proof -
  let ?s = "section_update (rightmost_label rt first_c row) sec"
  let ?m = "metric_of (rightmost_label rt first_c row)"
  let ?daily = "daily_records rt fname ?s ?m row col2date"
  let ?t = "total_record rt fname ?s ?m (row ! nat total_c)"
  have tot: "total_records rt fname ?s ?m row total_c = [?t]"
    using assms(2-4) by (simp add: total_records_def)
  have "row_step rt fname first_c total_c col2date (sec, recs) row = Inr (?s, recs @ ?daily @ [?t])"
    by (simp add: row_step_char [OF assms(1)] row_records_def Let_def tot)
  moreover have "list_all (\<lambda>x. \<not> is_total x \<and> section_name x = section_name ?t \<and>
                    metric_label x = metric_label ?t) ?daily"
    using daily_records_props [of ?s ?m rt fname row col2date]
    by (simp add: total_record_def Let_def)
  moreover have "length ?daily = length (filter (\<lambda>cd. emits rt (row ! nat (fst cd))) col2date)"
    by (simp add: daily_records_def)
  moreover have "date ?t = None \<and> is_total ?t \<and> section_name ?t = ?s \<and> metric_label ?t = ?m \<and>
     value_raw ?t = py_strip (py_str rt (row ! nat total_c))"
    by (simp add: total_record_def Let_def)
  ultimately show ?thesis by blast
qed

theorem total_record_emitted_witness:
  "row_ok 1 4 sample_col2date (sample_grid ! 4) \<and>
   nonempty_cell sample_rt (sample_grid ! 4 ! nat 4) \<and>
   (\<exists>sec' daily t.
     row_step sample_rt ''jan.csv'' 1 4 sample_col2date (Some ''RESTAURANT'', []) (sample_grid ! 4)
       = Inr (sec', [] @ daily @ [t]) \<and>
     list_all (\<lambda>x. \<not> is_total x \<and> section_name x = section_name t \<and>
                    metric_label x = metric_label t) daily \<and>
     length daily = length (filter (\<lambda>cd. emits sample_rt (sample_grid ! 4 ! nat (fst cd))) sample_col2date) \<and>
     date t = None \<and> is_total t \<and> section_name t = sec' \<and>
     metric_label t = metric_of (rightmost_label sample_rt 1 (sample_grid ! 4)) \<and>
     value_raw t = py_strip (py_str sample_rt (sample_grid ! 4 ! nat 4)))"
  using sample_row_ok sample_row_total(3)
    total_record_emitted [OF sample_row_ok sample_row_total, of "''jan.csv''" "Some ''RESTAURANT''" "[]"]
  by (intro conjI)

section \<open>The records of a file\<close>

lemma row_records_cases:
  assumes "x \<in> set (row_records rt fname first_c total_c c2d s row)"
  shows "section_name x = s \<and>
         ((is_total x \<and> date x = None) \<or>
          (\<not> is_total x \<and> (\<exists>cd \<in> set c2d. date x = Some (snd cd))))"
proof -
  let ?m = "metric_of (rightmost_label rt first_c row)"
  from assms have "x \<in> set (daily_records rt fname s ?m row c2d) \<or>
      x \<in> set (total_records rt fname s ?m row total_c)"
    by (simp add: row_records_def Let_def)
  then show ?thesis
  proof
    assume "x \<in> set (daily_records rt fname s ?m row c2d)"
    then obtain cd where "cd \<in> set c2d" "x = daily_record rt fname s ?m row cd"
      by (auto simp: daily_records_def)
    then show ?thesis by (auto simp: daily_record_def Let_def)
  next
    assume "x \<in> set (total_records rt fname s ?m row total_c)"
    then have "x = total_record rt fname s ?m (row ! nat total_c)"
      by (simp add: total_records_def split: if_splits)
    then show ?thesis by (simp add: total_record_def Let_def)
  qed
qed

lemma normalize_file_records:
  assumes "load fs p sheet_name = Inr df" "normalize_file rt fs p sheet_name = Inr t"
  shows "normalize_records rt (name p) df = Inr (rows t)"
  using assms
  by (auto simp: normalize_file_def reindex_def from_records_def split: sum.splits)

lemma normalize_records_header:
  assumes "normalize_records rt fname df = Inr recs"
    and "find_date_header_row rt df = (hdr, first_c, last_c, total_c)"
  shows "0 \<le> hdr"
proof (rule ccontr)
  assume "\<not> 0 \<le> hdr"
  then have "hdr < 0" by simp
  with assms(2) have "normalize_records rt fname df = Inl (HeaderNotFound fname)"
    by (simp add: normalize_records_def)
  with assms(1) show False by simp
qed

lemma sample_rect: "rectangular sample_grid" by code_simp
lemma sample_load: "load (sample_io sample_grid) sample_csv ''Daily'' = Inr sample_grid" by code_simp
lemma sample_header: "find_date_header_row sample_rt sample_grid = (1, 1, 3, 4)" by code_simp

lemma sample_normalize_file:
  "normalize_file sample_rt (sample_io sample_grid) sample_csv ''Daily'' = Inr sample_table"
  by code_simp

text \<open>
  C9.  In the table that \<open>normalize_file\<close> of the backup script returns for a file, the
  date of a record is \<open>None\<close> exactly when the record is a total; and the date of every
  record that is no total is the date, at midnight, that \<open>parse_date\<close> reads in a header
  cell of the date span: the column-to-date map holds nothing but dates that parsed.
\<close>

theorem date_null_iff_total:
  assumes "rectangular df"
    and "load fs p sheet_name = Inr df"
    and "normalize_file rt fs p sheet_name = Inr t"
    and "find_date_header_row rt df = (hdr, first_c, last_c, total_c)"
  shows "list_all (\<lambda>x. (date x = None) = is_total x) (rows t) \<and>
         list_all (\<lambda>x. is_total x \<or>
                    (\<exists>c d. first_c \<le> c \<and> c \<le> last_c \<and>
                       parse_date rt (df ! nat hdr ! nat c) = Some d \<and>
                       date x = Some (ts_normalize d))) (rows t)"
proof -
  let ?c2d = "col2date_of rt df hdr first_c last_c"
  let ?below = "drop (nat (hdr + 1)) df"
  from normalize_file_records [OF assms(2,3)]
  have recs: "normalize_records rt (name p) df = Inr (rows t)" .
  from normalize_records_header [OF recs assms(4)] have hdr: "0 \<le> hdr" .
  from normalize_records_char [OF assms(1,4) hdr, of "name p"] recs
  have eq: "rows t = concat (map (\<lambda>i. row_records rt (name p) first_c total_c ?c2d
                             (section_in_force rt first_c None (take (Suc i) ?below))
                             (?below ! i)) [0..<length ?below])"
    by simp
  have each: "(date x = None) = is_total x \<and>
           (is_total x \<or> (\<exists>c d. first_c \<le> c \<and> c \<le> last_c \<and>
                       parse_date rt (df ! nat hdr ! nat c) = Some d \<and>
                       date x = Some (ts_normalize d)))"
    if "x \<in> set (rows t)" for x
  proof -
    from that eq obtain i where
      "x \<in> set (row_records rt (name p) first_c total_c ?c2d
                             (section_in_force rt first_c None (take (Suc i) ?below))
                             (?below ! i))"
      by auto
    from row_records_cases [OF this]
    consider "is_total x" "date x = None"
      | cd where "\<not> is_total x" "cd \<in> set ?c2d" "date x = Some (snd cd)"
      by auto
    then show ?thesis
    proof cases
      case 1
      then show ?thesis by simp
    next
      case 2
      from col2date_of_keys [OF 2(2)] 2(1,3) show ?thesis by auto
    qed
  qed
  then show ?thesis by (simp add: list_all_iff)
qed

theorem date_null_iff_total_witness:
  "rectangular sample_grid \<and>
   load (sample_io sample_grid) sample_csv ''Daily'' = Inr sample_grid \<and>
   normalize_file sample_rt (sample_io sample_grid) sample_csv ''Daily'' = Inr sample_table \<and>
   find_date_header_row sample_rt sample_grid = (1, 1, 3, 4) \<and>
   list_all (\<lambda>x. (date x = None) = is_total x) (rows sample_table) \<and>
   list_all (\<lambda>x. is_total x \<or>
              (\<exists>c d. 1 \<le> c \<and> c \<le> 3 \<and>
                 parse_date sample_rt (sample_grid ! nat 1 ! nat c) = Some d \<and>
                 date x = Some (ts_normalize d))) (rows sample_table)"
proof -
  note r = date_null_iff_total [OF sample_rect sample_load sample_normalize_file sample_header]
  from r have a: "list_all (\<lambda>x. (date x = None) = is_total x) (rows sample_table)"
    by (rule conjunct1)
  from r have b: "list_all (\<lambda>x. is_total x \<or>
              (\<exists>c d. 1 \<le> c \<and> c \<le> 3 \<and>
                 parse_date sample_rt (sample_grid ! nat 1 ! nat c) = Some d \<and>
                 date x = Some (ts_normalize d))) (rows sample_table)"
    by (rule conjunct2)
  from sample_rect sample_load sample_normalize_file sample_header a b
  show ?thesis by (intro conjI)
qed

lemma section_in_force_snoc:
  "section_in_force rt first_c sec0 (rws @ [row]) =
     (case section_title rt first_c row of
        Some canon \<Rightarrow> Some canon
      | None \<Rightarrow> section_in_force rt first_c sec0 rws)"
  by (auto simp: section_in_force_def Let_def split: option.splits)

lemma row_records_section:
  "list_all (\<lambda>x. section_name x = s) (row_records rt fname first_c total_c c2d s row)"
  using row_records_cases [of _ rt fname first_c total_c c2d s row]
  by (simp add: list_all_iff)

lemma frames_loop_char:
  assumes "frames_loop rt fs sh ps acc = Inr frames"
  shows "\<exists>new. frames = acc @ new \<and> list_all2 (\<lambda>p fr. normalize_file rt fs p sh = Inr fr) ps new"
  using assms
proof (induction ps arbitrary: acc)
  case Nil
  then show ?case by simp
next
  case (Cons p ps)
  from Cons.prems obtain fr where fr: "normalize_file rt fs p sh = Inr fr"
    and rest: "frames_loop rt fs sh ps (acc @ [fr]) = Inr frames"
    by (auto split: sum.splits)
  from Cons.IH [OF rest] obtain new where "frames = (acc @ [fr]) @ new"
    "list_all2 (\<lambda>p fr. normalize_file rt fs p sh = Inr fr) ps new" by blast
  with fr have "frames = acc @ (fr # new) \<and>
      list_all2 (\<lambda>p fr. normalize_file rt fs p sh = Inr fr) (p # ps) (fr # new)" by simp
  then show ?case by blast
qed

lemma main_frames:
  assumes "main rt fs a = Inr t"
  shows "\<exists>frames. list_all2 (\<lambda>p fr. normalize_file rt fs p (sheet a) = Inr fr) (files a) frames \<and>
           rows t = concat (map rows frames)"
proof -
  from assms obtain frames where ne: "files a \<noteq> []"
    and f: "frames_loop rt fs (sheet a) (files a) [] = Inr frames" and t: "t = aggregate frames"
    by (auto simp: main_def split: if_splits sum.splits)
  from frames_loop_char [OF f]
  have l: "list_all2 (\<lambda>p fr. normalize_file rt fs p (sheet a) = Inr fr) (files a) frames" by simp
  have "rows t = concat (map rows frames)"
    by (simp add: t aggregate_def reindex_def concat_tables_def empty_frame_def)
  with l show ?thesis by blast
qed

text \<open>
  C5.  The records of a grid are those of its rows below the header, each row under the
  section in force for it, and every record of a row carries that section.  The section in
  force starts as \<open>None\<close> for every grid; a row whose label is a section synonym sets it to
  the canonical name, and every other row leaves it as it is, so the rows that follow a
  section title inherit its section until the next title.  The table of \<open>main\<close> is made
  of the tables that \<open>normalize_file\<close> returns for each file by itself, so no section
  passes from one file to the next.
\<close>

theorem section_persists:
  assumes "rectangular df"
    and "find_date_header_row rt df = (hdr, first_c, last_c, total_c)"
    and "0 \<le> hdr"
  shows "normalize_records rt fname df =
     Inr (concat (map (\<lambda>i. row_records rt fname first_c total_c
                             (col2date_of rt df hdr first_c last_c)
                             (section_in_force rt first_c None
                                (take (Suc i) (drop (nat (hdr + 1)) df)))
                             (drop (nat (hdr + 1)) df ! i))
                    [0..<length (drop (nat (hdr + 1)) df)])) \<and>
    list_all (\<lambda>x. section_name x = s) (row_records rt fname first_c total_c c2d s row) \<and>
    section_in_force rt first_c sec0 [] = sec0 \<and>
    section_in_force rt first_c sec0 (rws @ [row]) =
      (case section_title rt first_c row of
         Some canon \<Rightarrow> Some canon
       | None \<Rightarrow> section_in_force rt first_c sec0 rws) \<and>
    (main rt fs a = Inr t \<longrightarrow>
       (\<exists>frames. list_all2 (\<lambda>p fr. normalize_file rt fs p (sheet a) = Inr fr) (files a) frames \<and>
          rows t = concat (map rows frames)))"
  using normalize_records_char [OF assms, of fname] row_records_section [of s rt fname first_c total_c c2d row]
    section_in_force_snoc [of rt first_c sec0 rws row] main_frames [of rt fs a t]
  by (simp only: section_in_force_Nil simp_thms) blast

lemma sample_sections:
  "map (\<lambda>x. (section_name x, metric_label x, value_raw x, is_total x))
     (concat (map (\<lambda>i. row_records sample_rt ''jan.csv'' 1 4
                             (col2date_of sample_rt sample_grid 1 1 3)
                             (section_in_force sample_rt 1 None
                                (take (Suc i) (drop (nat (1 + 1)) sample_grid)))
                             (drop (nat (1 + 1)) sample_grid ! i))
                    [0..<length (drop (nat (1 + 1)) sample_grid)])) =
   [(Some ''RESTAURANT'', Some ''COMIDA'', ''10'', False),
    (Some ''RESTAURANT'', Some ''COMIDA'', ''20'', False),
    (Some ''RESTAURANT'', Some ''COMIDA'', ''30'', True),
    (Some ''RESTAURANT'', Some ''BEBIDA'', ''5'', False),
    (Some ''RESTAURANT'', Some ''BEBIDA'', ''8%'', False),
    (Some ''RESTAURANT'', Some ''BEBIDA'', ''13'', True)]"
  by code_simp

theorem section_persists_witness:
  "rectangular sample_grid \<and>
   find_date_header_row sample_rt sample_grid = (1, 1, 3, 4) \<and>
   map_sum id (map (\<lambda>x. (section_name x, metric_label x, value_raw x, is_total x)))
     (normalize_records sample_rt ''jan.csv'' sample_grid) =
   Inr [(Some ''RESTAURANT'', Some ''COMIDA'', ''10'', False),
        (Some ''RESTAURANT'', Some ''COMIDA'', ''20'', False),
        (Some ''RESTAURANT'', Some ''COMIDA'', ''30'', True),
        (Some ''RESTAURANT'', Some ''BEBIDA'', ''5'', False),
        (Some ''RESTAURANT'', Some ''BEBIDA'', ''8%'', False),
        (Some ''RESTAURANT'', Some ''BEBIDA'', ''13'', True)]"
proof -
  have h: "(0::int) \<le> 1" by simp
  from section_persists [OF sample_rect sample_header h, of "''jan.csv''"]
  have "normalize_records sample_rt ''jan.csv'' sample_grid =
     Inr (concat (map (\<lambda>i. row_records sample_rt ''jan.csv'' 1 4
                             (col2date_of sample_rt sample_grid 1 1 3)
                             (section_in_force sample_rt 1 None
                                (take (Suc i) (drop (nat (1 + 1)) sample_grid)))
                             (drop (nat (1 + 1)) sample_grid ! i))
                    [0..<length (drop (nat (1 + 1)) sample_grid)]))"
    by (rule conjunct1)
  then have "map_sum id (map (\<lambda>x. (section_name x, metric_label x, value_raw x, is_total x)))
     (normalize_records sample_rt ''jan.csv'' sample_grid) = Inr (map (\<lambda>x. (section_name x, metric_label x, value_raw x, is_total x))
     (concat (map (\<lambda>i. row_records sample_rt ''jan.csv'' 1 4
                             (col2date_of sample_rt sample_grid 1 1 3)
                             (section_in_force sample_rt 1 None
                                (take (Suc i) (drop (nat (1 + 1)) sample_grid)))
                             (drop (nat (1 + 1)) sample_grid ! i))
                    [0..<length (drop (nat (1 + 1)) sample_grid)])))"
    by (simp only: map_sum.simps)
  with sample_rect sample_header show ?thesis by (simp only: sample_sections simp_thms)
qed

end
